theory Spec2Isabelle
  imports Main "HOL-Library.Multiset"
begin

section \<open>JavaScript values used by the user vertical\<close>

text \<open>
  A JavaScript number that comes out of \<^verbatim>\<open>parseInt\<close> is an integer or \<^verbatim>\<open>NaN\<close>.
  Integers are unbounded here; the loss of precision of a double beyond \<open>2^53\<close> is not
  modelled. An optional parameter (\<^verbatim>\<open>page?: number\<close>) is an \<open>option\<close>, with
  \<open>None\<close> for \<^verbatim>\<open>undefined\<close>.
\<close>

datatype jsnum = Num int | NaN

text \<open>Truthiness of a number: \<^verbatim>\<open>undefined\<close>, \<^verbatim>\<open>NaN\<close> and \<^verbatim>\<open>0\<close> are falsy.\<close>

fun truthy_num :: "jsnum option \<Rightarrow> bool" where
  "truthy_num None = False"
| "truthy_num (Some NaN) = False"
| "truthy_num (Some (Num n)) = (n \<noteq> 0)"

text \<open>Truthiness of a string: the empty string is falsy; so is \<^verbatim>\<open>undefined\<close>.\<close>

definition truthy_str :: "string \<Rightarrow> bool" where
  "truthy_str s = (s \<noteq> [])"

fun truthy_opt :: "string option \<Rightarrow> bool" where
  "truthy_opt None = False"
| "truthy_opt (Some s) = truthy_str s"

text \<open>Arithmetic on numbers: \<^verbatim>\<open>NaN\<close> is absorbing.\<close>

fun js_minus :: "jsnum \<Rightarrow> jsnum \<Rightarrow> jsnum" where
  "js_minus (Num a) (Num b) = Num (a - b)"
| "js_minus _ _ = NaN"

fun js_times :: "jsnum \<Rightarrow> jsnum \<Rightarrow> jsnum" where
  "js_times (Num a) (Num b) = Num (a * b)"
| "js_times _ _ = NaN"

text \<open>
  \<^verbatim>\<open>String.prototype.toLowerCase\<close> on the ASCII letters. Strings are byte lists, so
  the case mapping of characters beyond ASCII is not modelled; a wallet address is a
  hexadecimal ASCII string (\<^verbatim>\<open>@IsEthereumAddress()\<close>).
\<close>

definition lower_char :: "char \<Rightarrow> char" where
  "lower_char c =
     (case map_of (zip ''ABCDEFGHIJKLMNOPQRSTUVWXYZ'' ''abcdefghijklmnopqrstuvwxyz'') c of
        None \<Rightarrow> c
      | Some l \<Rightarrow> l)"

definition toLowerCase :: "string \<Rightarrow> string" where
  "toLowerCase s = map lower_char s"

text \<open>
  \<^verbatim>\<open>parseInt(s, 10)\<close>: leading white space is skipped, one sign is read, then the
  longest prefix of decimal digits; with no digit the result is \<^verbatim>\<open>NaN\<close>.
\<close>

definition is_space :: "char \<Rightarrow> bool" where
  "is_space c = (c \<in> set [CHR 0x09, CHR 0x0A, CHR 0x0B, CHR 0x0C, CHR 0x0D, CHR '' ''])"

definition is_digit :: "char \<Rightarrow> bool" where
  "is_digit c = (c \<in> set ''0123456789'')"

definition digit_val :: "char \<Rightarrow> int" where
  "digit_val c = (case map_of (zip ''0123456789'' [0, 1, 2, 3, 4, 5, 6, 7, 8, 9]) c of
                    None \<Rightarrow> 0
                  | Some v \<Rightarrow> v)"

definition digits_value :: "string \<Rightarrow> int" where
  "digits_value ds = foldl (\<lambda>acc c. 10 * acc + digit_val c) 0 ds"

definition parseInt :: "string \<Rightarrow> jsnum" where
  "parseInt s =
     (let t = dropWhile is_space s;
          sign = (case t of c # _ \<Rightarrow> if c = CHR ''-'' then - 1 else 1 | [] \<Rightarrow> (1::int));
          r = (case t of c # cs \<Rightarrow> if c = CHR ''-'' \<or> c = CHR ''+'' then cs else t | [] \<Rightarrow> []);
          ds = takeWhile is_digit r
      in if ds = [] then NaN else Num (sign * digits_value ds))"

section \<open>Data model\<close>

text \<open>
  Modelled from the spec: the \<^verbatim>\<open>UserRole\<close> enumeration
  (\<^verbatim>\<open>enums/user-role.enum.ts\<close> is not among the sources): a learner role \<open>USER\<close>,
  the default, and one elevated role.
\<close>

datatype UserRole = USER | ADMIN

text \<open>
  Modelled from the spec: the \<^verbatim>\<open>User\<close> entity (\<^verbatim>\<open>entities/user.entity.ts\<close> is not
  among the sources), with the columns the repository selects and the \<open>password\<close>
  column. An entity read through a column selection has no password property
  (\<open>None\<close>); a stored row has one. Dates are instants on an integer time line.
\<close>

record User =
  uid :: string
  name :: string
  email :: string
  password :: "string option"
  role :: UserRole
  walletAddress :: "string option"
  createdAt :: int
  updatedAt :: int

text \<open>\<^verbatim>\<open>CreateUserDto\<close> (\<^verbatim>\<open>dto/create-user.dto.ts\<close>).\<close>

record CreateUserDto =
  c_name :: string
  c_email :: string
  c_password :: string
  c_role :: "UserRole option"
  c_walletAddress :: "string option"

text \<open>
  Modelled from the spec: \<^verbatim>\<open>UpdateUserDto\<close> (\<^verbatim>\<open>dto/update-user.dto.ts\<close> is not among
  the sources), the partial fields of an update. The service reads \<open>email\<close> and
  \<open>password\<close>; which other fields the input admits is not in the sources, so the
  model admits every field of the create input, each optional, and covers any
  subset of them. The same shape is the partial entity handed to the ORM's
  \<^verbatim>\<open>update\<close>.
\<close>

record UpdateUserDto =
  u_name :: "string option"
  u_email :: "string option"
  u_password :: "string option"
  u_role :: "UserRole option"
  u_walletAddress :: "string option"

text \<open>\<^verbatim>\<open>LinkWalletDto\<close>: the one field \<^verbatim>\<open>walletAddress\<close>, a string.\<close>

type_synonym LinkWalletDto = string

text \<open>
  The response object is the object literal that \<^verbatim>\<open>toResponseDto\<close> builds: a list
  of property names with their values, in the order of the literal.
\<close>

datatype jsval = JStr string | JNull | JRole UserRole | JDate int

type_synonym UserResponseDto = "(string \<times> jsval) list"

text \<open>
  The HTTP exceptions the service throws, with their messages, and \<open>QueryFailed\<close>,
  the failure of the storage layer, which the service does not catch or translate.
\<close>

datatype error =
    BadRequest string
  | NotFound string
  | Conflict string
  | QueryFailed

section \<open>The store and the ORM primitives\<close>

text \<open>
  The table of users is the list of its rows in insertion order. Every round trip
  to the store is recorded in \<open>queries\<close>, so that a claim about storage access can
  be stated. The store keeps \<open>email\<close> and a non-null \<open>walletAddress\<close> unique
  (PostgreSQL: exact equality of the stored strings): a write that would give a
  second row the same value is rejected with \<open>QueryFailed\<close> and changes no row. The
  id of a new row is generated by the store, so no clash of ids is modelled.
\<close>

datatype query = QInsert | QSelect | QUpdate | QDelete | QCount

record db =
  rows :: "User list"
  queries :: "query list"

definition logq :: "query \<Rightarrow> db \<Rightarrow> db" where
  "logq q d = d\<lparr>queries := queries d @ [q]\<rparr>"

text \<open>The column selection \<open>id, name, email, role, walletAddress, createdAt, updatedAt\<close>.\<close>

definition select_public :: "User \<Rightarrow> User" where
  "select_public u = u\<lparr>password := None\<rparr>"

text \<open>
  Modelled from the spec: the unique constraints of the \<^verbatim>\<open>User\<close> entity
  (\<^verbatim>\<open>entities/user.entity.ts\<close> is not among the sources): at most one row holds a
  given email, and at most one a given non-null wallet address. An insert is
  rejected when a stored row has the email or the non-null wallet address of the
  new row.
\<close>

definition insert_rejected :: "User \<Rightarrow> User list \<Rightarrow> bool" where
  "insert_rejected new us =
     (\<exists>u\<in>set us. email u = email new \<or>
        (case walletAddress new of None \<Rightarrow> False | Some w \<Rightarrow> walletAddress u = Some w))"

text \<open>\<^verbatim>\<open>save\<close> of a new entity: the row is appended and returned, unless rejected.\<close>

definition orm_save :: "User \<Rightarrow> db \<Rightarrow> (error + User) \<times> db" where
  "orm_save u d =
     (if insert_rejected u (rows d) then (Inl QueryFailed, logq QInsert d)
      else (Inr u, logq QInsert (d\<lparr>rows := rows d @ [u]\<rparr>)))"

text \<open>\<^verbatim>\<open>findOne({ where })\<close>: the first row that satisfies the condition.\<close>

definition orm_findOne :: "(User \<Rightarrow> bool) \<Rightarrow> db \<Rightarrow> User option \<times> db" where
  "orm_findOne P d = (find P (rows d), logq QSelect d)"

text \<open>
  \<^verbatim>\<open>update(id, partial)\<close>: the provided fields replace the stored ones in the row
  with that id, and the storage layer sets \<open>updatedAt\<close>.
\<close>

definition apply_partial :: "UpdateUserDto \<Rightarrow> int \<Rightarrow> User \<Rightarrow> User" where
  "apply_partial p now u =
     u\<lparr>name := (case u_name p of None \<Rightarrow> name u | Some v \<Rightarrow> v),
       email := (case u_email p of None \<Rightarrow> email u | Some v \<Rightarrow> v),
       password := (case u_password p of None \<Rightarrow> password u | Some v \<Rightarrow> Some v),
       role := (case u_role p of None \<Rightarrow> role u | Some v \<Rightarrow> v),
       walletAddress := (case u_walletAddress p of None \<Rightarrow> walletAddress u | Some v \<Rightarrow> Some v),
       updatedAt := now\<rparr>"

text \<open>
  Modelled from the spec: the same unique constraints on an update. The write is
  rejected when a row has the id and another row holds the email or the wallet
  address that the partial entity provides.
\<close>

definition update_rejected :: "string \<Rightarrow> UpdateUserDto \<Rightarrow> User list \<Rightarrow> bool" where
  "update_rejected i p us =
     ((\<exists>u\<in>set us. uid u = i) \<and>
      (\<exists>v\<in>set us. uid v \<noteq> i \<and>
         ((case u_email p of None \<Rightarrow> False | Some e \<Rightarrow> email v = e) \<or>
          (case u_walletAddress p of None \<Rightarrow> False | Some w \<Rightarrow> walletAddress v = Some w))))"

definition orm_update :: "string \<Rightarrow> UpdateUserDto \<Rightarrow> int \<Rightarrow> db \<Rightarrow> (error + unit) \<times> db" where
  "orm_update i p now d =
     (if update_rejected i p (rows d) then (Inl QueryFailed, logq QUpdate d)
      else (Inr (),
            logq QUpdate
              (d\<lparr>rows := map (\<lambda>u. if uid u = i then apply_partial p now u else u) (rows d)\<rparr>)))"

text \<open>\<^verbatim>\<open>delete(id)\<close>: the rows with that id are removed; the result counts them.\<close>

definition orm_delete :: "string \<Rightarrow> db \<Rightarrow> nat \<times> db" where
  "orm_delete i d =
     (length (filter (\<lambda>u. uid u = i) (rows d)),
      logq QDelete (d\<lparr>rows := filter (\<lambda>u. uid u \<noteq> i) (rows d)\<rparr>))"

text \<open>\<^verbatim>\<open>count({ where })\<close> and \<^verbatim>\<open>getCount()\<close> of a query builder.\<close>

definition orm_count :: "(User \<Rightarrow> bool) \<Rightarrow> db \<Rightarrow> nat \<times> db" where
  "orm_count P d = (length (filter P (rows d)), logq QCount d)"

text \<open>
  The query builder of \<^verbatim>\<open>findAll\<close>: the optional date bounds and the optional
  \<^verbatim>\<open>skip\<close> and \<^verbatim>\<open>take\<close>. The order \<open>createdAt DESC\<close> is fixed; rows with
  equal \<open>createdAt\<close> keep their insertion order.
\<close>

record select_query =
  q_startDate :: "int option"
  q_endDate :: "int option"
  q_skip :: "jsnum option"
  q_take :: "jsnum option"

definition orderByCreatedAtDesc :: "User list \<Rightarrow> User list" where
  "orderByCreatedAtDesc us = sort_key (\<lambda>u. - createdAt u) us"

definition where_dates :: "select_query \<Rightarrow> User \<Rightarrow> bool" where
  "where_dates q u =
     ((case q_startDate q of None \<Rightarrow> True | Some s \<Rightarrow> s \<le> createdAt u) \<and>
      (case q_endDate q of None \<Rightarrow> True | Some e \<Rightarrow> createdAt u \<le> e))"

text \<open>
  \<^verbatim>\<open>getManyAndCount()\<close>: the count ignores \<^verbatim>\<open>skip\<close> and \<^verbatim>\<open>take\<close>. An offset or
  limit that is \<^verbatim>\<open>NaN\<close> or negative is refused by the ORM or the database.
\<close>

fun paging_nat :: "jsnum option \<Rightarrow> error + nat option" where
  "paging_nat None = Inr None"
| "paging_nat (Some NaN) = Inl QueryFailed"
| "paging_nat (Some (Num n)) = (if n < 0 then Inl QueryFailed else Inr (Some (nat n)))"

definition getManyAndCount :: "select_query \<Rightarrow> db \<Rightarrow> (error + User list \<times> nat) \<times> db" where
  "getManyAndCount q d =
     (let matching = orderByCreatedAtDesc (filter (where_dates q) (rows d));
          selected = map select_public matching
      in (case paging_nat (q_skip q) of
            Inl e \<Rightarrow> Inl e
          | Inr s \<Rightarrow>
             (case paging_nat (q_take q) of
                Inl e \<Rightarrow> Inl e
              | Inr t \<Rightarrow>
                 (let skipped = (case s of None \<Rightarrow> selected | Some k \<Rightarrow> drop k selected);
                      taken = (case t of None \<Rightarrow> skipped | Some k \<Rightarrow> take k skipped)
                  in Inr (taken, length matching))),
          logq QSelect d))"

section \<open>UsersRepository\<close>

text \<open>
  \<^verbatim>\<open>create\<close>: the wallet address is normalised to lowercase, or stored as null
  when it is absent or empty. The id and the timestamps are generated by the store;
  they are parameters here. An absent role takes the column default.
\<close>

definition repo_create ::
  "string \<Rightarrow> int \<Rightarrow> CreateUserDto \<Rightarrow> db \<Rightarrow> (error + User) \<times> db" where
  "repo_create newId now dto d =
     orm_save
       \<lparr>uid = newId,
        name = c_name dto,
        email = c_email dto,
        password = Some (c_password dto),
        role = (case c_role dto of None \<Rightarrow> USER | Some r \<Rightarrow> r),
        walletAddress =
          (case c_walletAddress dto of
             None \<Rightarrow> None
           | Some w \<Rightarrow> if truthy_str w then Some (toLowerCase w) else None),
        createdAt = now,
        updatedAt = now\<rparr> d"

text \<open>
  Modelled from the spec: \<^verbatim>\<open>DateRangeFilterDto\<close> (\<^verbatim>\<open>common/dto\<close> is not among the
  sources): optional inclusive bounds on \<open>createdAt\<close>, given here as instants.
\<close>

record DateRangeFilterDto =
  startDate :: "int option"
  endDate :: "int option"

definition applyDateFilters :: "select_query \<Rightarrow> DateRangeFilterDto \<Rightarrow> select_query" where
  "applyDateFilters q filters =
     (let q1 = (case startDate filters of None \<Rightarrow> q | Some s \<Rightarrow> q\<lparr>q_startDate := Some s\<rparr>)
      in (case endDate filters of None \<Rightarrow> q1 | Some e \<Rightarrow> q1\<lparr>q_endDate := Some e\<rparr>))"

text \<open>
  The query that \<^verbatim>\<open>findAll\<close> builds: \<^verbatim>\<open>skip\<close> and \<^verbatim>\<open>take\<close> are set only
  under the guard \<^verbatim>\<open>page && limit\<close>.
\<close>

definition findAll_query ::
  "jsnum option \<Rightarrow> jsnum option \<Rightarrow> DateRangeFilterDto option \<Rightarrow> select_query" where
  "findAll_query page limit filters =
     (let q0 = \<lparr>q_startDate = None, q_endDate = None, q_skip = None, q_take = None\<rparr>;
          q1 = (case filters of None \<Rightarrow> q0 | Some f \<Rightarrow> applyDateFilters q0 f)
      in if truthy_num page \<and> truthy_num limit
         then (let skip = js_times (js_minus (the page) (Num 1)) (the limit)
               in q1\<lparr>q_skip := Some skip, q_take := limit\<rparr>)
         else q1)"

definition repo_findAll ::
  "jsnum option \<Rightarrow> jsnum option \<Rightarrow> DateRangeFilterDto option \<Rightarrow> db
     \<Rightarrow> (error + User list \<times> nat) \<times> db" where
  "repo_findAll page limit filters d = getManyAndCount (findAll_query page limit filters) d"

definition repo_findById :: "string \<Rightarrow> db \<Rightarrow> User option \<times> db" where
  "repo_findById i d =
     (case orm_findOne (\<lambda>u. uid u = i) d of (r, d1) \<Rightarrow> (map_option select_public r, d1))"

definition repo_findByEmail :: "string \<Rightarrow> db \<Rightarrow> User option \<times> db" where
  "repo_findByEmail e d = orm_findOne (\<lambda>u. email u = e) d"

definition repo_findByWalletAddress :: "string \<Rightarrow> db \<Rightarrow> User option \<times> db" where
  "repo_findByWalletAddress w d =
     (case orm_findOne (\<lambda>u. walletAddress u = Some (toLowerCase w)) d of
        (r, d1) \<Rightarrow> (map_option select_public r, d1))"

text \<open>
  \<^verbatim>\<open>update\<close> and \<^verbatim>\<open>linkWallet\<close>: the write, then \<^verbatim>\<open>findById\<close>. A failure of
  the write is an exception that passes through. \<^verbatim>\<open>update\<close> hands the input to the
  ORM as it is; \<^verbatim>\<open>linkWallet\<close> lowercases the address.
\<close>

definition repo_update ::
  "string \<Rightarrow> UpdateUserDto \<Rightarrow> int \<Rightarrow> db \<Rightarrow> (error + User option) \<times> db" where
  "repo_update i dto now d =
     (case orm_update i dto now d of
        (Inl e, d1) \<Rightarrow> (Inl e, d1)
      | (Inr _, d1) \<Rightarrow> (case repo_findById i d1 of (r, d2) \<Rightarrow> (Inr r, d2)))"

definition repo_linkWallet ::
  "string \<Rightarrow> string \<Rightarrow> int \<Rightarrow> db \<Rightarrow> (error + User option) \<times> db" where
  "repo_linkWallet i w now d =
     (case orm_update i
             \<lparr>u_name = None, u_email = None, u_password = None, u_role = None,
              u_walletAddress = Some (toLowerCase w)\<rparr> now d of
        (Inl e, d1) \<Rightarrow> (Inl e, d1)
      | (Inr _, d1) \<Rightarrow> (case repo_findById i d1 of (r, d2) \<Rightarrow> (Inr r, d2)))"

definition repo_delete :: "string \<Rightarrow> db \<Rightarrow> bool \<times> db" where
  "repo_delete i d = (case orm_delete i d of (affected, d1) \<Rightarrow> (affected > 0, d1))"

definition repo_exists :: "string \<Rightarrow> db \<Rightarrow> bool \<times> db" where
  "repo_exists i d = (case orm_count (\<lambda>u. uid u = i) d of (n, d1) \<Rightarrow> (n > 0, d1))"

text \<open>
  \<^verbatim>\<open>emailExists\<close> and \<^verbatim>\<open>walletExists\<close>: the comparison is the equality of the
  database (PostgreSQL: exact on text, never true on null); \<^verbatim>\<open>excludeId\<close> is
  applied when it is truthy.
\<close>

definition repo_emailExists :: "string \<Rightarrow> string option \<Rightarrow> db \<Rightarrow> bool \<times> db" where
  "repo_emailExists e excludeId d =
     (case orm_count
             (\<lambda>u. email u = e \<and> (if truthy_opt excludeId then uid u \<noteq> the excludeId else True)) d
      of (n, d1) \<Rightarrow> (n > 0, d1))"

definition repo_walletExists :: "string \<Rightarrow> string option \<Rightarrow> db \<Rightarrow> bool \<times> db" where
  "repo_walletExists w excludeId d =
     (case orm_count
             (\<lambda>u. walletAddress u = Some (toLowerCase w) \<and>
                  (if truthy_opt excludeId then uid u \<noteq> the excludeId else True)) d
      of (n, d1) \<Rightarrow> (n > 0, d1))"

section \<open>UsersService\<close>

definition toResponseDto :: "User \<Rightarrow> UserResponseDto" where
  "toResponseDto u =
     [(''id'', JStr (uid u)),
      (''name'', JStr (name u)),
      (''email'', JStr (email u)),
      (''role'', JRole (role u)),
      (''walletAddress'', (case walletAddress u of None \<Rightarrow> JNull | Some w \<Rightarrow> JStr w)),
      (''createdAt'', JDate (createdAt u)),
      (''updatedAt'', JDate (updatedAt u))]"

text \<open>
  \<^verbatim>\<open>bcrypt.hash(_, PASSWORD_SALT_ROUNDS)\<close> is the parameter \<open>h\<close> of the operations
  that hash; the id and the instant that the store generates are \<open>newId\<close> and \<open>now\<close>.
\<close>

definition svc_create ::
  "(string \<Rightarrow> string) \<Rightarrow> string \<Rightarrow> int \<Rightarrow> CreateUserDto \<Rightarrow> db
     \<Rightarrow> (error + UserResponseDto) \<times> db" where
  "svc_create h newId now createUserDto d =
     (case repo_emailExists (c_email createUserDto) None d of
        (emailExists, d1) \<Rightarrow>
          if emailExists then (Inl (Conflict ''Email already exists''), d1)
          else
            (case (if truthy_opt (c_walletAddress createUserDto)
                   then repo_walletExists (the (c_walletAddress createUserDto)) None d1
                   else (False, d1)) of
               (walletExists, d2) \<Rightarrow>
                 if walletExists
                 then (Inl (Conflict ''Wallet address is already linked to another account''), d2)
                 else
                   (let hashedPassword = h (c_password createUserDto)
                    in (case repo_create newId now
                               (createUserDto\<lparr>c_password := hashedPassword\<rparr>) d2 of
                          (Inl e, d3) \<Rightarrow> (Inl e, d3)
                        | (Inr saved, d3) \<Rightarrow> (Inr (toResponseDto saved), d3)))))"

definition svc_findAll ::
  "jsnum option \<Rightarrow> jsnum option \<Rightarrow> db \<Rightarrow> (error + UserResponseDto list \<times> nat) \<times> db" where
  "svc_findAll page limit d =
     (case repo_findAll page limit None d of
        (Inl e, d1) \<Rightarrow> (Inl e, d1)
      | (Inr (users, totalCount), d1) \<Rightarrow> (Inr (map toResponseDto users, totalCount), d1))"

definition svc_findById :: "string \<Rightarrow> db \<Rightarrow> (error + UserResponseDto) \<times> db" where
  "svc_findById i d =
     (if \<not> truthy_str i then (Inl (BadRequest ''User ID is required''), d)
      else
        (case repo_findById i d of
           (None, d1) \<Rightarrow> (Inl (NotFound (''User with ID '' @ i @ '' not found'')), d1)
         | (Some user, d1) \<Rightarrow> (Inr (toResponseDto user), d1)))"

definition svc_update ::
  "(string \<Rightarrow> string) \<Rightarrow> int \<Rightarrow> string \<Rightarrow> UpdateUserDto \<Rightarrow> db
     \<Rightarrow> (error + UserResponseDto) \<times> db" where
  "svc_update h now i updateUserDto d =
     (if \<not> truthy_str i then (Inl (BadRequest ''User ID is required''), d)
      else
        (case repo_exists i d of
           (userExists, d1) \<Rightarrow>
             if \<not> userExists
             then (Inl (NotFound (''User with ID '' @ i @ '' not found'')), d1)
             else
               (case (if truthy_opt (u_email updateUserDto)
                      then repo_emailExists (the (u_email updateUserDto)) (Some i) d1
                      else (False, d1)) of
                  (emailExists, d2) \<Rightarrow>
                    if emailExists then (Inl (Conflict ''Email already exists''), d2)
                    else
                      (let dto' =
                             (if truthy_opt (u_password updateUserDto)
                              then updateUserDto
                                     \<lparr>u_password := Some (h (the (u_password updateUserDto)))\<rparr>
                              else updateUserDto)
                       in (case repo_update i dto' now d2 of
                             (Inl e, d3) \<Rightarrow> (Inl e, d3)
                           | (Inr None, d3) \<Rightarrow>
                               (Inl (NotFound (''User with ID '' @ i @ '' not found'')), d3)
                           | (Inr (Some updatedUser), d3) \<Rightarrow>
                               (Inr (toResponseDto updatedUser), d3))))))"

definition svc_delete :: "string \<Rightarrow> db \<Rightarrow> (error + unit) \<times> db" where
  "svc_delete i d =
     (if \<not> truthy_str i then (Inl (BadRequest ''User ID is required''), d)
      else
        (case repo_exists i d of
           (userExists, d1) \<Rightarrow>
             if \<not> userExists
             then (Inl (NotFound (''User with ID '' @ i @ '' not found'')), d1)
             else
               (case repo_delete i d1 of
                  (deleted, d2) \<Rightarrow>
                    if \<not> deleted
                    then (Inl (NotFound (''User with ID '' @ i @ '' not found'')), d2)
                    else (Inr (), d2))))"

definition svc_findByWalletAddress :: "string \<Rightarrow> db \<Rightarrow> (error + UserResponseDto) \<times> db" where
  "svc_findByWalletAddress w d =
     (if \<not> truthy_str w then (Inl (BadRequest ''Wallet address is required''), d)
      else
        (case repo_findByWalletAddress w d of
           (None, d1) \<Rightarrow>
             (Inl (NotFound (''No user found with wallet address '' @ w)), d1)
         | (Some user, d1) \<Rightarrow> (Inr (toResponseDto user), d1)))"

definition svc_linkWallet ::
  "int \<Rightarrow> string \<Rightarrow> LinkWalletDto \<Rightarrow> db \<Rightarrow> (error + UserResponseDto) \<times> db" where
  "svc_linkWallet now i w d =
     (if \<not> truthy_str i then (Inl (BadRequest ''User ID is required''), d)
      else
        (case repo_exists i d of
           (userExists, d1) \<Rightarrow>
             if \<not> userExists
             then (Inl (NotFound (''User with ID '' @ i @ '' not found'')), d1)
             else
               (case repo_walletExists w (Some i) d1 of
                  (walletTaken, d2) \<Rightarrow>
                    if walletTaken
                    then (Inl (Conflict ''Wallet address is already linked to another account''),
                          d2)
                    else
                      (case repo_linkWallet i w now d2 of
                         (Inl e, d3) \<Rightarrow> (Inl e, d3)
                       | (Inr None, d3) \<Rightarrow>
                           (Inl (NotFound (''User with ID '' @ i @ '' not found'')), d3)
                       | (Inr (Some updatedUser), d3) \<Rightarrow>
                           (Inr (toResponseDto updatedUser), d3)))))"

section \<open>UsersController: the listing endpoint\<close>

record list_envelope =
  e_message :: string
  e_data :: "UserResponseDto list"
  e_total :: nat
  e_page :: jsnum
  e_limit :: jsnum

text \<open>
  \<^verbatim>\<open>GET /users\<close>: an absent query parameter takes its default, \<^verbatim>\<open>'1'\<close> or
  \<^verbatim>\<open>'10'\<close>; both are parsed with \<^verbatim>\<open>parseInt(_, 10)\<close>.
\<close>

definition ctrl_findAll ::
  "string option \<Rightarrow> string option \<Rightarrow> db \<Rightarrow> (error + list_envelope) \<times> db" where
  "ctrl_findAll page limit d =
     (let pageNumber = parseInt (case page of None \<Rightarrow> ''1'' | Some s \<Rightarrow> s);
          limitNumber = parseInt (case limit of None \<Rightarrow> ''10'' | Some s \<Rightarrow> s)
      in (case svc_findAll (Some pageNumber) (Some limitNumber) d of
            (Inl e, d1) \<Rightarrow> (Inl e, d1)
          | (Inr (users, totalCount), d1) \<Rightarrow>
              (Inr \<lparr>e_message = ''Users retrieved successfully'',
                    e_data = users,
                    e_total = totalCount,
                    e_page = pageNumber,
                    e_limit = limitNumber\<rparr>, d1)))"

section \<open>The properties, in the words of the specification\<close>

text \<open>A user with this email exists: exact equality of the strings.\<close>

definition email_in_use :: "string \<Rightarrow> User list \<Rightarrow> bool" where
  "email_in_use e us = (\<exists>u\<in>set us. email u = e)"

text \<open>A user other than \<open>i\<close> has this email.\<close>

definition email_of_other :: "string \<Rightarrow> string \<Rightarrow> User list \<Rightarrow> bool" where
  "email_of_other e i us = (\<exists>u\<in>set us. uid u \<noteq> i \<and> email u = e)"

text \<open>Two wallet addresses are the same up to letter case.\<close>

definition same_wallet :: "string \<Rightarrow> string \<Rightarrow> bool" where
  "same_wallet a b = (toLowerCase a = toLowerCase b)"

text \<open>A user holds this wallet address, compared without regard to case.\<close>

definition wallet_in_use :: "string \<Rightarrow> User list \<Rightarrow> bool" where
  "wallet_in_use w us =
     (\<exists>u\<in>set us. case walletAddress u of None \<Rightarrow> False | Some s \<Rightarrow> same_wallet s w)"

text \<open>A user other than \<open>i\<close> holds this wallet address, compared without regard to case.\<close>

definition wallet_of_other :: "string \<Rightarrow> string \<Rightarrow> User list \<Rightarrow> bool" where
  "wallet_of_other w i us =
     (\<exists>u\<in>set us. uid u \<noteq> i \<and>
        (case walletAddress u of None \<Rightarrow> False | Some s \<Rightarrow> same_wallet s w))"

text \<open>
  A user other than \<open>i\<close> has the lowercase form of this wallet address as stored
  wallet address.
\<close>

definition wallet_stored_by_other :: "string \<Rightarrow> string \<Rightarrow> User list \<Rightarrow> bool" where
  "wallet_stored_by_other w i us =
     (\<exists>u\<in>set us. uid u \<noteq> i \<and> walletAddress u = Some (toLowerCase w))"

definition user_exists :: "string \<Rightarrow> User list \<Rightarrow> bool" where
  "user_exists i us = (\<exists>u\<in>set us. uid u = i)"

text \<open>
  The invariant of the data model on stored wallet addresses: each is in lowercase
  form. \<^verbatim>\<open>create\<close> and \<^verbatim>\<open>linkWallet\<close> store nothing else; \<^verbatim>\<open>update\<close> writes
  the wallet address of its input as it is.
\<close>

definition wallets_lowercase :: "User list \<Rightarrow> bool" where
  "wallets_lowercase us =
     (\<forall>u\<in>set us. case walletAddress u of None \<Rightarrow> True | Some w \<Rightarrow> toLowerCase w = w)"

text \<open>The property names of the public response shape.\<close>

definition response_keys :: "string list" where
  "response_keys =
     [''id'', ''name'', ''email'', ''role'', ''walletAddress'', ''createdAt'', ''updatedAt'']"

text \<open>A list of users is in descending order of \<open>createdAt\<close>.\<close>

definition createdAt_desc :: "User list \<Rightarrow> bool" where
  "createdAt_desc us = sorted (map (\<lambda>u. - createdAt u) us)"

text \<open>A string without any decimal digit.\<close>

definition no_digit :: "string \<Rightarrow> bool" where
  "no_digit s = (\<forall>c\<in>set s. \<not> is_digit c)"

section \<open>A small store for concrete runs\<close>

definition ann :: User where
  "ann = \<lparr>uid = ''a'', name = ''Ann'', email = ''ann@x.io'', password = Some ''$h1'',
          role = USER, walletAddress = Some ''0xab'', createdAt = 10, updatedAt = 10\<rparr>"

definition bob :: User where
  "bob = \<lparr>uid = ''b'', name = ''Bob'', email = ''bob@x.io'', password = Some ''$h2'',
          role = ADMIN, walletAddress = None, createdAt = 20, updatedAt = 20\<rparr>"

definition two_users :: db where
  "two_users = \<lparr>rows = [ann, bob], queries = []\<rparr>"

definition salted :: "string \<Rightarrow> string" where
  "salted p = ''$2b$'' @ p"

definition cy_dto :: CreateUserDto where
  "cy_dto = \<lparr>c_name = ''Cy'', c_email = ''cy@x.io'', c_password = ''secret'',
             c_role = None, c_walletAddress = Some ''0xCD''\<rparr>"

definition cy :: User where
  "cy = \<lparr>uid = ''c'', name = ''Cy'', email = ''cy@x.io'', password = Some ''$2b$secret'',
         role = USER, walletAddress = Some ''0xcd'', createdAt = 30, updatedAt = 30\<rparr>"

definition three_users :: db where
  "three_users = \<lparr>rows = [ann, bob, cy], queries = [QCount, QCount, QInsert]\<rparr>"

definition ann_update :: UpdateUserDto where
  "ann_update = \<lparr>u_name = None, u_email = Some ''ann@x.io'', u_password = Some ''newpass'',
                 u_role = None, u_walletAddress = None\<rparr>"

text \<open>Inputs of \<^verbatim>\<open>update\<close>: a wallet address in mixed case, and an empty password.\<close>

definition mixed_address :: string where
  "mixed_address = ''0xAbCdEf1234567890AbCdEf1234567890AbCdEf12''"

definition wallet_update :: UpdateUserDto where
  "wallet_update = \<lparr>u_name = None, u_email = None, u_password = None, u_role = None,
                    u_walletAddress = Some mixed_address\<rparr>"

definition empty_password_update :: UpdateUserDto where
  "empty_password_update = \<lparr>u_name = None, u_email = None, u_password = Some [],
                            u_role = None, u_walletAddress = None\<rparr>"

section \<open>Facts about the model\<close>

subsection \<open>Strings\<close>

lemma lower_char_idem: "lower_char (lower_char c) = lower_char c"
  by (simp add: lower_char_def)

lemma toLowerCase_idem: "toLowerCase (toLowerCase s) = toLowerCase s"
  by (simp add: toLowerCase_def lower_char_idem)

lemma toLowerCase_Nil_iff: "toLowerCase s = [] \<longleftrightarrow> s = []"
  by (simp add: toLowerCase_def)

subsection \<open>Rows and lookups\<close>

lemma rows_logq: "rows (logq q d) = rows d"
  by (simp add: logq_def)

lemma filter_nonempty_iff: "filter P xs \<noteq> [] \<longleftrightarrow> (\<exists>x\<in>set xs. P x)"
  by (simp add: filter_empty_conv)

lemma find_Some_holds: "find P xs = Some x \<Longrightarrow> x \<in> set xs \<and> P x"
  by (induction xs) (auto split: if_splits)

lemma find_uid_append:
  "\<not> user_exists i us \<Longrightarrow> find (\<lambda>u. uid u = i) (us @ [v]) = (if uid v = i then Some v else None)"
  by (induction us) (auto simp: user_exists_def)

lemma find_append_fresh:
  "\<not> (\<exists>x\<in>set xs. P x) \<Longrightarrow> find P (xs @ [v]) = (if P v then Some v else None)"
  by (induction xs) auto

lemma user_exists_find:
  "user_exists i us \<Longrightarrow> \<exists>u. find (\<lambda>u. uid u = i) us = Some u \<and> uid u = i \<and> u \<in> set us"
  by (induction us) (auto simp: user_exists_def)

lemma uid_apply_partial: "uid (apply_partial p now u) = uid u"
  by (simp add: apply_partial_def)

lemma apply_partial_twice: "apply_partial p now (apply_partial p now u) = apply_partial p now u"
  by (simp add: apply_partial_def split: option.splits)

lemma find_uid_map_update:
  "find (\<lambda>u. uid u = i) (map (\<lambda>u. if uid u = i then apply_partial p now u else u) us)
     = map_option (apply_partial p now) (find (\<lambda>u. uid u = i) us)"
  by (induction us) (simp_all add: uid_apply_partial)

lemma user_exists_map_update:
  "user_exists j (map (\<lambda>u. if uid u = i then apply_partial p now u else u) us)
     = user_exists j us"
  by (induction us) (auto simp: user_exists_def uid_apply_partial)

subsection \<open>Writes that the store accepts or rejects\<close>

lemma insert_rejected_iff:
  "insert_rejected new us
     = (email_in_use (email new) us
        \<or> (\<exists>w. walletAddress new = Some w \<and> (\<exists>u\<in>set us. walletAddress u = Some w)))"
  by (auto simp: insert_rejected_def email_in_use_def split: option.splits)


lemma update_rejected_link:
  "update_rejected i \<lparr>u_name = None, u_email = None, u_password = None, u_role = None,
                      u_walletAddress = Some x\<rparr> us
     = (user_exists i us \<and> (\<exists>v\<in>set us. uid v \<noteq> i \<and> walletAddress v = Some x))"
  by (simp add: update_rejected_def user_exists_def)


lemma orm_update_accepted:
  "\<not> update_rejected i p (rows d) \<Longrightarrow>
     orm_update i p now d
       = (Inr (),
          logq QUpdate
            (d\<lparr>rows := map (\<lambda>u. if uid u = i then apply_partial p now u else u) (rows d)\<rparr>))"
  by (simp add: orm_update_def)


subsection \<open>The repository operations\<close>

lemma repo_exists_eq: "repo_exists i d = (user_exists i (rows d), logq QCount d)"
  by (simp add: repo_exists_def orm_count_def user_exists_def filter_nonempty_iff)

lemma repo_emailExists_None: "repo_emailExists e None d = (email_in_use e (rows d), logq QCount d)"
  by (simp add: repo_emailExists_def orm_count_def email_in_use_def filter_nonempty_iff)


lemma repo_walletExists_None:
  "repo_walletExists w None d = (\<exists>u\<in>set (rows d). walletAddress u = Some (toLowerCase w), logq QCount d)"
  by (simp add: repo_walletExists_def orm_count_def filter_nonempty_iff)

lemma repo_walletExists_Some:
  "i \<noteq> [] \<Longrightarrow> repo_walletExists w (Some i) d =
     (\<exists>u\<in>set (rows d). uid u \<noteq> i \<and> walletAddress u = Some (toLowerCase w), logq QCount d)"
  by (auto simp add: repo_walletExists_def orm_count_def filter_nonempty_iff truthy_str_def)

lemma repo_delete_eq:
  "repo_delete i d =
     (user_exists i (rows d), logq QDelete (d\<lparr>rows := filter (\<lambda>u. uid u \<noteq> i) (rows d)\<rparr>))"
  by (simp add: repo_delete_def orm_delete_def user_exists_def filter_nonempty_iff)


lemma repo_update_eq:
  "\<not> update_rejected i p (rows d) \<Longrightarrow>
   repo_update i p now d =
     (Inr (map_option (\<lambda>u. select_public (apply_partial p now u))
             (find (\<lambda>u. uid u = i) (rows d))),
      logq QSelect (snd (orm_update i p now d)))"
  by (simp add: repo_update_def repo_findById_def orm_findOne_def orm_update_accepted rows_logq
      find_uid_map_update option.map_comp comp_def)

lemma repo_linkWallet_eq:
  "repo_linkWallet i w now d =
     repo_update i \<lparr>u_name = None, u_email = None, u_password = None, u_role = None,
                    u_walletAddress = Some (toLowerCase w)\<rparr> now d"
  by (simp add: repo_linkWallet_def repo_update_def)

subsection \<open>Case-insensitive wallet comparison\<close>

lemma wallet_in_use_iff:
  assumes "wallets_lowercase us"
  shows "wallet_in_use w us \<longleftrightarrow> (\<exists>u\<in>set us. walletAddress u = Some (toLowerCase w))"
proof
  assume "wallet_in_use w us"
  then obtain u s where u: "u \<in> set us" "walletAddress u = Some s" "toLowerCase s = toLowerCase w"
    by (auto simp: wallet_in_use_def same_wallet_def split: option.splits)
  with assms have "toLowerCase s = s"
    by (auto simp: wallets_lowercase_def split: option.splits)
  with u show "\<exists>u\<in>set us. walletAddress u = Some (toLowerCase w)" by auto
next
  assume "\<exists>u\<in>set us. walletAddress u = Some (toLowerCase w)"
  then show "wallet_in_use w us"
    by (force simp: wallet_in_use_def same_wallet_def toLowerCase_idem)
qed

lemma wallet_of_other_iff:
  assumes "wallets_lowercase us"
  shows "wallet_of_other w i us \<longleftrightarrow>
           (\<exists>u\<in>set us. uid u \<noteq> i \<and> walletAddress u = Some (toLowerCase w))"
proof
  assume "wallet_of_other w i us"
  then obtain u s where u: "u \<in> set us" "uid u \<noteq> i" "walletAddress u = Some s"
      "toLowerCase s = toLowerCase w"
    by (auto simp: wallet_of_other_def same_wallet_def split: option.splits)
  with assms have "toLowerCase s = s"
    by (auto simp: wallets_lowercase_def split: option.splits)
  with u show "\<exists>u\<in>set us. uid u \<noteq> i \<and> walletAddress u = Some (toLowerCase w)" by auto
next
  assume "\<exists>u\<in>set us. uid u \<noteq> i \<and> walletAddress u = Some (toLowerCase w)"
  then show "wallet_of_other w i us"
    by (auto simp: wallet_of_other_def same_wallet_def toLowerCase_idem)
qed

lemma wallet_probe_implies_in_use:
  "\<exists>u\<in>set us. walletAddress u = Some (toLowerCase w) \<Longrightarrow> wallet_in_use w us"
  by (force simp: wallet_in_use_def same_wallet_def toLowerCase_idem)

lemma stored_by_other_holds_it:
  "wallet_stored_by_other w i us \<Longrightarrow> wallet_of_other w i us"
  by (force simp: wallet_stored_by_other_def wallet_of_other_def same_wallet_def toLowerCase_idem)

lemma wallets_lowercase_append:
  "wallets_lowercase (us @ [v]) \<longleftrightarrow>
     wallets_lowercase us \<and> (case walletAddress v of None \<Rightarrow> True | Some w \<Rightarrow> toLowerCase w = w)"
  by (auto simp: wallets_lowercase_def)

subsection \<open>The response object\<close>

lemma toResponseDto_select_public: "toResponseDto (select_public u) = toResponseDto u"
  by (simp add: toResponseDto_def select_public_def)

lemma toResponseDto_ignores_password: "toResponseDto (u\<lparr>password := x\<rparr>) = toResponseDto u"
  by (simp add: toResponseDto_def)

lemma keys_toResponseDto: "map fst (toResponseDto u) = response_keys"
  by (simp add: toResponseDto_def response_keys_def)

subsection \<open>Runs on the small store\<close>

lemmas store_defs = two_users_def three_users_def ann_def bob_def cy_def cy_dto_def salted_def
  ann_update_def wallet_update_def empty_password_update_def mixed_address_def

lemmas probe_defs = email_in_use_def email_of_other_def wallet_in_use_def wallet_of_other_def
  wallet_stored_by_other_def user_exists_def wallets_lowercase_def same_wallet_def
  toLowerCase_def lower_char_def

lemmas run_defs = svc_create_def svc_findAll_def svc_findById_def svc_update_def svc_delete_def
  svc_findByWalletAddress_def svc_linkWallet_def ctrl_findAll_def
  repo_create_def repo_findAll_def repo_findById_def repo_findByWalletAddress_def
  repo_update_def repo_linkWallet_def repo_delete_def repo_exists_def repo_emailExists_def
  repo_walletExists_def findAll_query_def getManyAndCount_def orderByCreatedAtDesc_def
  where_dates_def orm_save_def orm_findOne_def orm_update_def orm_delete_def orm_count_def
  insert_rejected_def update_rejected_def
  apply_partial_def select_public_def logq_def truthy_str_def Let_def

lemma run_create_cy:
  "svc_create salted ''c'' 30 cy_dto two_users = (Inr (toResponseDto cy), three_users)"
  by (simp add: run_defs store_defs toLowerCase_def lower_char_def)

lemma run_link_bob:
  "fst (svc_linkWallet 40 ''b'' ''0xEF'' two_users)
     = Inr (toResponseDto (bob\<lparr>walletAddress := Some ''0xef'', updatedAt := 40\<rparr>))"
  "rows (snd (svc_linkWallet 40 ''b'' ''0xEF'' two_users))
     = [ann, bob\<lparr>walletAddress := Some ''0xef'', updatedAt := 40\<rparr>]"
  by (simp_all add: run_defs store_defs toLowerCase_def lower_char_def toResponseDto_def)

lemma run_update_ann:
  "svc_update salted 50 ''a'' ann_update two_users
     = (Inr (toResponseDto (ann\<lparr>updatedAt := 50\<rparr>)),
        \<lparr>rows = [ann\<lparr>password := Some ''$2b$newpass'', updatedAt := 50\<rparr>, bob],
         queries = [QCount, QCount, QUpdate, QSelect]\<rparr>)"
  by (simp add: run_defs store_defs toResponseDto_def)


lemma run_update_bob_wallet:
  "svc_update salted 50 ''b'' wallet_update two_users
     = (Inr (toResponseDto (bob\<lparr>walletAddress := Some mixed_address, updatedAt := 50\<rparr>)),
        \<lparr>rows = [ann, bob\<lparr>walletAddress := Some mixed_address, updatedAt := 50\<rparr>],
         queries = [QCount, QUpdate, QSelect]\<rparr>)"
  by (simp add: run_defs store_defs toResponseDto_def)

lemma lower_mixed_address:
  "toLowerCase mixed_address = ''0xabcdef1234567890abcdef1234567890abcdef12''"
  by (simp add: mixed_address_def toLowerCase_def lower_char_def)

lemma run_create_after_update:
  "svc_create salted ''c'' 60 (cy_dto\<lparr>c_walletAddress := Some mixed_address\<rparr>)
     \<lparr>rows = [ann, bob\<lparr>walletAddress := Some mixed_address, updatedAt := 50\<rparr>],
      queries = [QCount, QUpdate, QSelect]\<rparr>
   = (Inr (toResponseDto
             (cy\<lparr>walletAddress := Some ''0xabcdef1234567890abcdef1234567890abcdef12'',
                 createdAt := 60, updatedAt := 60\<rparr>)),
      \<lparr>rows = [ann, bob\<lparr>walletAddress := Some mixed_address, updatedAt := 50\<rparr>,
               cy\<lparr>walletAddress := Some ''0xabcdef1234567890abcdef1234567890abcdef12'',
                  createdAt := 60, updatedAt := 60\<rparr>],
       queries = [QCount, QUpdate, QSelect, QCount, QCount, QInsert]\<rparr>)"
  by (simp add: run_defs store_defs toLowerCase_def lower_char_def toResponseDto_def)

lemma run_findById_ann: "fst (svc_findById ''a'' two_users) = Inr (toResponseDto ann)"
  by (simp add: run_defs store_defs toResponseDto_def)

lemma run_findByWallet_ann:
  "fst (svc_findByWalletAddress ''0xAB'' two_users) = Inr (toResponseDto ann)"
  by (simp add: run_defs store_defs toResponseDto_def toLowerCase_def lower_char_def)

lemma run_findAll_two:
  "fst (svc_findAll (Some (Num 2)) (Some (Num 1)) two_users) = Inr ([toResponseDto ann], 2)"
  "fst (svc_findAll None None two_users) = Inr ([toResponseDto bob, toResponseDto ann], 2)"
  by (simp_all add: run_defs store_defs toResponseDto_def)

section \<open>create\<close>

lemma svc_create_outcome:
  "let saved = \<lparr>uid = newId, name = c_name dto, email = c_email dto,
                  password = Some (h (c_password dto)),
                  role = (case c_role dto of None \<Rightarrow> USER | Some r \<Rightarrow> r),
                  walletAddress =
                    (case c_walletAddress dto of
                       None \<Rightarrow> None
                     | Some w \<Rightarrow> if w = [] then None else Some (toLowerCase w)),
                  createdAt = now, updatedAt = now\<rparr>;
       res = svc_create h newId now dto d
   in if email_in_use (c_email dto) (rows d)
      then fst res = Inl (Conflict ''Email already exists'') \<and> rows (snd res) = rows d
      else if \<exists>w. c_walletAddress dto = Some w \<and> w \<noteq> []
                \<and> (\<exists>u\<in>set (rows d). walletAddress u = Some (toLowerCase w))
      then fst res = Inl (Conflict ''Wallet address is already linked to another account'')
           \<and> rows (snd res) = rows d
      else fst res = Inr (toResponseDto saved) \<and> rows (snd res) = rows d @ [saved]"
proof (cases "c_walletAddress dto")
  case None
  then show ?thesis
    by (simp add: svc_create_def repo_emailExists_None repo_create_def orm_save_def rows_logq
        Let_def insert_rejected_iff)
next
  case (Some w)
  then show ?thesis
    by (simp add: svc_create_def repo_emailExists_None repo_walletExists_None repo_create_def
        orm_save_def rows_logq Let_def truthy_str_def insert_rejected_iff)
qed

lemma svc_create_Inr:
  assumes "svc_create h newId now dto d = (Inr r, d')"
  obtains saved where "rows d' = rows d @ [saved]" "r = toResponseDto saved"
    "uid saved = newId"
    "walletAddress saved =
       (case c_walletAddress dto of None \<Rightarrow> None
        | Some w \<Rightarrow> if w = [] then None else Some (toLowerCase w))"
    "password saved = Some (h (c_password dto))"
    "\<not> email_in_use (c_email dto) (rows d)"
    "\<And>w. c_walletAddress dto = Some w \<Longrightarrow> w \<noteq> [] \<Longrightarrow>
        \<not> (\<exists>u\<in>set (rows d). walletAddress u = Some (toLowerCase w))"
proof -
  from svc_create_outcome [of newId dto h now d] assms
  have "\<not> email_in_use (c_email dto) (rows d)"
    and "\<not> (\<exists>w. c_walletAddress dto = Some w \<and> w \<noteq> []
                \<and> (\<exists>u\<in>set (rows d). walletAddress u = Some (toLowerCase w)))"
    by (auto simp: Let_def split: if_splits)
  with svc_create_outcome [of newId dto h now d] assms
  have "r = toResponseDto
        \<lparr>uid = newId, name = c_name dto, email = c_email dto,
           password = Some (h (c_password dto)),
           role = (case c_role dto of None \<Rightarrow> USER | Some r \<Rightarrow> r),
           walletAddress =
             (case c_walletAddress dto of None \<Rightarrow> None
              | Some w \<Rightarrow> if w = [] then None else Some (toLowerCase w)),
           createdAt = now, updatedAt = now\<rparr>"
    and "rows d' = rows d @
        [\<lparr>uid = newId, name = c_name dto, email = c_email dto,
           password = Some (h (c_password dto)),
           role = (case c_role dto of None \<Rightarrow> USER | Some r \<Rightarrow> r),
           walletAddress =
             (case c_walletAddress dto of None \<Rightarrow> None
              | Some w \<Rightarrow> if w = [] then None else Some (toLowerCase w)),
           createdAt = now, updatedAt = now\<rparr>]"
    by (simp_all add: Let_def)
  with \<open>\<not> email_in_use (c_email dto) (rows d)\<close>
    \<open>\<not> (\<exists>w. c_walletAddress dto = Some w \<and> w \<noteq> []
                \<and> (\<exists>u\<in>set (rows d). walletAddress u = Some (toLowerCase w)))\<close>
  show thesis
    by (intro that) auto
qed

lemma create_keeps_wallets_lowercase:
  assumes "wallets_lowercase (rows d)"
  shows "wallets_lowercase (rows (snd (svc_create h newId now dto d)))"
  using assms svc_create_outcome [of newId dto h now d]
  by (auto simp: Let_def wallets_lowercase_append toLowerCase_idem
      split: if_splits option.splits)

text \<open>
  Claim C1, at an input where the code departs from it. \<^verbatim>\<open>update\<close> writes the
  wallet address of its input as it is, so after bob's wallet address is updated to
  an address in mixed case, the store holds that address; \<^verbatim>\<open>create\<close> with the very
  same address compares its lowercase form with the stored values, finds none, and
  succeeds where the claim has Conflict: two users then hold the same address up to
  letter case.
\<close>

theorem create_after_unnormalised_update:
  "fst (svc_update salted 50 ''b'' wallet_update two_users)
     = Inr (toResponseDto (bob\<lparr>walletAddress := Some mixed_address, updatedAt := 50\<rparr>))
   \<and> map walletAddress (rows (snd (svc_update salted 50 ''b'' wallet_update two_users)))
       = [Some ''0xab'', Some mixed_address]
   \<and> wallet_in_use mixed_address (rows (snd (svc_update salted 50 ''b'' wallet_update two_users)))
   \<and> fst (svc_create salted ''c'' 60 (cy_dto\<lparr>c_walletAddress := Some mixed_address\<rparr>)
             (snd (svc_update salted 50 ''b'' wallet_update two_users)))
       = Inr (toResponseDto
                (cy\<lparr>walletAddress := Some ''0xabcdef1234567890abcdef1234567890abcdef12'',
                    createdAt := 60, updatedAt := 60\<rparr>))
   \<and> map walletAddress
         (rows (snd (svc_create salted ''c'' 60 (cy_dto\<lparr>c_walletAddress := Some mixed_address\<rparr>)
                       (snd (svc_update salted 50 ''b'' wallet_update two_users)))))
       = [Some ''0xab'', Some mixed_address, Some ''0xabcdef1234567890abcdef1234567890abcdef12'']
   \<and> same_wallet mixed_address ''0xabcdef1234567890abcdef1234567890abcdef12''"
proof -
  have held: "wallet_in_use mixed_address
                [ann, bob\<lparr>walletAddress := Some mixed_address, updatedAt := 50\<rparr>]"
    by (simp add: wallet_in_use_def same_wallet_def)
  have same: "same_wallet mixed_address ''0xabcdef1234567890abcdef1234567890abcdef12''"
    by (simp add: store_defs probe_defs)
  show ?thesis
    using held same
    by (simp add: run_update_bob_wallet run_create_after_update) (simp add: ann_def)
qed

text \<open>
  Claim C8. Round trip: when \<^verbatim>\<open>create\<close> succeeds with the response \<open>r\<close>, and the
  id that the store generated is non-empty and was not in use, then the \<open>id\<close> of
  \<open>r\<close> is that id, and \<^verbatim>\<open>findById\<close> with it succeeds on the resulting store and
  returns \<open>r\<close>: every field of the response is equal (the response has no
  password field).
\<close>

theorem create_then_findById:
  assumes "svc_create h newId now dto d = (Inr r, d')"
    and "newId \<noteq> []"
    and "\<not> user_exists newId (rows d)"
  shows "map_of r ''id'' = Some (JStr newId) \<and> fst (svc_findById newId d') = Inr r"
proof (rule svc_create_Inr [OF assms(1)])
  fix saved
  assume s: "rows d' = rows d @ [saved]" "r = toResponseDto saved" "uid saved = newId"
  have "find (\<lambda>u. uid u = newId) (rows d') = Some saved"
    using s assms(3) by (simp add: find_uid_append)
  then have "fst (svc_findById newId d') = Inr r"
    using assms(2) s(2)
    by (simp add: svc_findById_def repo_findById_def orm_findOne_def truthy_str_def
        toResponseDto_select_public)
  moreover have "map_of r ''id'' = Some (JStr newId)"
    using s(2,3) by (simp add: toResponseDto_def)
  ultimately show ?thesis
    by simp
qed

text \<open>A concrete run of the theorem above on the small store.\<close>

theorem create_then_findById_witness:
  "svc_create salted ''c'' 30 cy_dto two_users = (Inr (toResponseDto cy), three_users)
   \<and> ''c'' \<noteq> [] \<and> \<not> user_exists ''c'' (rows two_users)
   \<and> map_of (toResponseDto cy) ''id'' = Some (JStr ''c'')
   \<and> fst (svc_findById ''c'' three_users) = Inr (toResponseDto cy)"
proof -
  have fresh: "\<not> user_exists ''c'' (rows two_users)"
    by (simp add: store_defs probe_defs)
  have ne: "''c'' \<noteq> []" by simp
  show ?thesis
    using run_create_cy fresh create_then_findById [OF run_create_cy ne fresh] by simp
qed

text \<open>
  Claim C3. When \<^verbatim>\<open>create\<close> with the non-empty wallet address \<open>a\<close> succeeds,
  the stored wallet address of the new row is the lowercase form of \<open>a\<close>, the
  response carries it, and \<^verbatim>\<open>findByWalletAddress b\<close> returns that same user for
  every \<open>b\<close> whose lowercase form is the lowercase form of \<open>a\<close>.
\<close>

theorem wallet_lookup_ignores_case:
  assumes "svc_create h newId now dto d = (Inr r, d')"
    and "c_walletAddress dto = Some a"
    and "a \<noteq> []"
    and "same_wallet b a"
  shows "walletAddress (last (rows d')) = Some (toLowerCase a)
         \<and> map_of r ''walletAddress'' = Some (JStr (toLowerCase a))
         \<and> fst (svc_findByWalletAddress b d') = Inr r"
proof (rule svc_create_Inr [OF assms(1)])
  fix saved
  assume s: "rows d' = rows d @ [saved]" "r = toResponseDto saved"
    "walletAddress saved =
       (case c_walletAddress dto of None \<Rightarrow> None
        | Some w \<Rightarrow> if w = [] then None else Some (toLowerCase w))"
    and free: "\<And>w. c_walletAddress dto = Some w \<Longrightarrow> w \<noteq> [] \<Longrightarrow>
        \<not> (\<exists>u\<in>set (rows d). walletAddress u = Some (toLowerCase w))"
  have w: "walletAddress saved = Some (toLowerCase a)"
    using s(3) assms(2,3) by simp
  have ba: "toLowerCase b = toLowerCase a"
    using assms(4) by (simp add: same_wallet_def)
  have "b \<noteq> []"
    using ba assms(3) toLowerCase_Nil_iff by metis
  moreover have "find (\<lambda>u. walletAddress u = Some (toLowerCase b)) (rows d') = Some saved"
    using free [OF assms(2,3)] w by (simp add: s(1) ba find_append_fresh)
  ultimately have "fst (svc_findByWalletAddress b d') = Inr r"
    by (simp add: svc_findByWalletAddress_def repo_findByWalletAddress_def orm_findOne_def
        truthy_str_def toResponseDto_select_public s(2))
  moreover have "map_of r ''walletAddress'' = Some (JStr (toLowerCase a))"
    by (simp add: s(2) toResponseDto_def w)
  ultimately show ?thesis
    using w by (simp add: s(1))
qed

text \<open>A concrete run of the theorem above on the small store.\<close>

theorem wallet_lookup_ignores_case_witness:
  "svc_create salted ''c'' 30 cy_dto two_users = (Inr (toResponseDto cy), three_users)
   \<and> c_walletAddress cy_dto = Some ''0xCD'' \<and> ''0xCD'' \<noteq> [] \<and> same_wallet ''0Xcd'' ''0xCD''
   \<and> walletAddress (last (rows three_users)) = Some ''0xcd''
   \<and> fst (svc_findByWalletAddress ''0Xcd'' three_users) = Inr (toResponseDto cy)"
proof -
  have w: "c_walletAddress cy_dto = Some ''0xCD''" by (simp add: cy_dto_def)
  have ne: "''0xCD'' \<noteq> []" by simp
  have sw: "same_wallet ''0Xcd'' ''0xCD''" by (simp add: probe_defs)
  have lc: "toLowerCase ''0xCD'' = ''0xcd''" by (simp add: probe_defs)
  show ?thesis
    using run_create_cy w sw wallet_lookup_ignores_case [OF run_create_cy w ne sw]
    by (simp add: lc)
qed

text \<open>
  Claim C10. The probe \<^verbatim>\<open>emailExists\<close> holds exactly when a row has the very same
  email string. So when the email of the input is a case variant of a stored email
  and no row has exactly that string, \<^verbatim>\<open>create\<close> does not fail with the email
  Conflict, and it succeeds when the wallet address of the input is absent or free.
\<close>

theorem email_probe_is_case_sensitive:
  "fst (repo_emailExists e None d) = (\<exists>u\<in>set (rows d). email u = e)
   \<and> (e1 \<noteq> e2 \<and> toLowerCase e1 = toLowerCase e2 \<and> email_in_use e1 (rows d)
        \<and> \<not> email_in_use e2 (rows d) \<and> c_email dto = e2 \<longrightarrow>
        fst (svc_create h newId now dto d) \<noteq> Inl (Conflict ''Email already exists'')
        \<and> ((\<forall>w. c_walletAddress dto = Some w \<longrightarrow> \<not> wallet_in_use w (rows d)) \<longrightarrow>
              (\<exists>r. fst (svc_create h newId now dto d) = Inr r
                    \<and> map_of r ''email'' = Some (JStr e2))))"
proof (intro conjI impI)
  show "fst (repo_emailExists e None d) = (\<exists>u\<in>set (rows d). email u = e)"
    by (simp add: repo_emailExists_None email_in_use_def)
next
  assume a: "e1 \<noteq> e2 \<and> toLowerCase e1 = toLowerCase e2 \<and> email_in_use e1 (rows d)
        \<and> \<not> email_in_use e2 (rows d) \<and> c_email dto = e2"
  note out = svc_create_outcome [of newId dto h now d]
  from a out show "fst (svc_create h newId now dto d) \<noteq> Inl (Conflict ''Email already exists'')"
    by (auto simp: Let_def split: if_splits)
  assume free: "\<forall>w. c_walletAddress dto = Some w \<longrightarrow> \<not> wallet_in_use w (rows d)"
  have "\<not> (\<exists>w. c_walletAddress dto = Some w \<and> w \<noteq> []
                \<and> (\<exists>u\<in>set (rows d). walletAddress u = Some (toLowerCase w)))"
    using free wallet_probe_implies_in_use by blast
  with a out show "\<exists>r. fst (svc_create h newId now dto d) = Inr r
      \<and> map_of r ''email'' = Some (JStr e2)"
    by (simp add: Let_def toResponseDto_def)
qed

text \<open>A concrete run of the theorem above on the small store.\<close>

theorem email_probe_is_case_sensitive_witness:
  "''ann@x.io'' \<noteq> ''Ann@X.io''
   \<and> toLowerCase ''ann@x.io'' = toLowerCase ''Ann@X.io''
   \<and> email_in_use ''ann@x.io'' (rows two_users)
   \<and> \<not> email_in_use ''Ann@X.io'' (rows two_users)
   \<and> c_email (cy_dto\<lparr>c_email := ''Ann@X.io''\<rparr>) = ''Ann@X.io''
   \<and> \<not> wallet_in_use ''0xCD'' (rows two_users)
   \<and> fst (svc_create salted ''c'' 30 (cy_dto\<lparr>c_email := ''Ann@X.io''\<rparr>) two_users)
       \<noteq> Inl (Conflict ''Email already exists'')
   \<and> fst (svc_create salted ''c'' 30 (cy_dto\<lparr>c_email := ''Ann@X.io''\<rparr>) two_users)
       = Inr (toResponseDto (cy\<lparr>email := ''Ann@X.io''\<rparr>))"
proof -
  have run: "fst (svc_create salted ''c'' 30 (cy_dto\<lparr>c_email := ''Ann@X.io''\<rparr>) two_users)
       = Inr (toResponseDto (cy\<lparr>email := ''Ann@X.io''\<rparr>))"
    by (simp add: run_defs store_defs toLowerCase_def lower_char_def toResponseDto_def)
  show ?thesis
    using email_probe_is_case_sensitive [of "''Ann@X.io''" two_users "''ann@x.io''"
        "''Ann@X.io''" "cy_dto\<lparr>c_email := ''Ann@X.io''\<rparr>" salted "''c''" 30] run
    by (simp add: store_defs probe_defs)
qed

section \<open>The response shape\<close>

lemma svc_create_shape:
  "fst (svc_create h newId now dto d) = Inr r \<Longrightarrow> \<exists>u. r = toResponseDto u"
  by (auto simp: svc_create_def Let_def split: prod.splits if_splits sum.splits)

lemma svc_findById_shape: "fst (svc_findById i d) = Inr r \<Longrightarrow> \<exists>u. r = toResponseDto u"
  by (auto simp: svc_findById_def split: prod.splits if_splits option.splits)

lemma svc_findByWalletAddress_shape:
  "fst (svc_findByWalletAddress w d) = Inr r \<Longrightarrow> \<exists>u. r = toResponseDto u"
  by (auto simp: svc_findByWalletAddress_def split: prod.splits if_splits option.splits)

lemma svc_update_shape:
  "fst (svc_update h now i dto d) = Inr r \<Longrightarrow> \<exists>u. r = toResponseDto u"
  by (auto simp: svc_update_def Let_def split: prod.splits if_splits option.splits sum.splits)

lemma svc_linkWallet_shape:
  "fst (svc_linkWallet now i w d) = Inr r \<Longrightarrow> \<exists>u. r = toResponseDto u"
  by (auto simp: svc_linkWallet_def split: prod.splits if_splits option.splits sum.splits)

lemma svc_findAll_shape:
  "fst (svc_findAll page limit d) = Inr (rs, n) \<Longrightarrow> \<exists>us. rs = map toResponseDto us"
  by (auto simp: svc_findAll_def split: prod.splits sum.splits)

text \<open>
  Claim C2. Every response object that \<^verbatim>\<open>create\<close>, \<^verbatim>\<open>findAll\<close>,
  \<^verbatim>\<open>findById\<close>, \<^verbatim>\<open>update\<close>, \<^verbatim>\<open>linkWallet\<close> and \<^verbatim>\<open>findByWalletAddress\<close>
  return has exactly the properties id, name, email, role, walletAddress, createdAt
  and updatedAt; \<open>password\<close> is not among them, and the response of a user does
  not depend on the stored password.
\<close>

theorem responses_have_public_keys:
  "(\<forall>r. fst (svc_create h newId now cdto d) = Inr r \<longrightarrow> map fst r = response_keys)
   \<and> (\<forall>rs n. fst (svc_findAll page limit d) = Inr (rs, n) \<longrightarrow>
          (\<forall>r\<in>set rs. map fst r = response_keys))
   \<and> (\<forall>r. fst (svc_findById i d) = Inr r \<longrightarrow> map fst r = response_keys)
   \<and> (\<forall>r. fst (svc_update h now i udto d) = Inr r \<longrightarrow> map fst r = response_keys)
   \<and> (\<forall>r. fst (svc_linkWallet now i w d) = Inr r \<longrightarrow> map fst r = response_keys)
   \<and> (\<forall>r. fst (svc_findByWalletAddress w d) = Inr r \<longrightarrow> map fst r = response_keys)
   \<and> ''password'' \<notin> set response_keys
   \<and> response_keys
        = [''id'', ''name'', ''email'', ''role'', ''walletAddress'', ''createdAt'', ''updatedAt'']
   \<and> (\<forall>u x. toResponseDto (u\<lparr>password := x\<rparr>) = toResponseDto u)"
proof (intro conjI allI impI ballI)
  fix r assume "fst (svc_create h newId now cdto d) = Inr r"
  then show "map fst r = response_keys"
    using svc_create_shape keys_toResponseDto by blast
next
  fix rs n r
  assume "fst (svc_findAll page limit d) = Inr (rs, n)" and "r \<in> set rs"
  then obtain us where "rs = map toResponseDto us" "r \<in> set rs"
    using svc_findAll_shape by blast
  then show "map fst r = response_keys"
    using keys_toResponseDto by auto
next
  fix r assume "fst (svc_findById i d) = Inr r"
  then show "map fst r = response_keys"
    using svc_findById_shape keys_toResponseDto by blast
next
  fix r assume "fst (svc_update h now i udto d) = Inr r"
  then show "map fst r = response_keys"
    using svc_update_shape keys_toResponseDto by blast
next
  fix r assume "fst (svc_linkWallet now i w d) = Inr r"
  then show "map fst r = response_keys"
    using svc_linkWallet_shape keys_toResponseDto by blast
next
  fix r assume "fst (svc_findByWalletAddress w d) = Inr r"
  then show "map fst r = response_keys"
    using svc_findByWalletAddress_shape keys_toResponseDto by blast
next
  show "''password'' \<notin> set response_keys"
    by (simp add: response_keys_def)
next
  show "response_keys
        = [''id'', ''name'', ''email'', ''role'', ''walletAddress'', ''createdAt'', ''updatedAt'']"
    by (simp add: response_keys_def)
next
  fix u :: User and x
  show "toResponseDto (u\<lparr>password := x\<rparr>) = toResponseDto u"
    by (rule toResponseDto_ignores_password)
qed

text \<open>A concrete run of the theorem above on the small store.\<close>

theorem responses_have_public_keys_witness:
  "fst (svc_create salted ''c'' 30 cy_dto two_users) = Inr (toResponseDto cy)
   \<and> fst (svc_findAll None None two_users) = Inr ([toResponseDto bob, toResponseDto ann], 2)
   \<and> fst (svc_findById ''a'' two_users) = Inr (toResponseDto ann)
   \<and> fst (svc_update salted 50 ''a'' ann_update two_users)
       = Inr (toResponseDto (ann\<lparr>updatedAt := 50\<rparr>))
   \<and> fst (svc_linkWallet 40 ''b'' ''0xEF'' two_users)
       = Inr (toResponseDto (bob\<lparr>walletAddress := Some ''0xef'', updatedAt := 40\<rparr>))
   \<and> fst (svc_findByWalletAddress ''0xAB'' two_users) = Inr (toResponseDto ann)
   \<and> map fst (toResponseDto cy) = response_keys
   \<and> map fst (toResponseDto bob) = response_keys
   \<and> map fst (toResponseDto ann) = response_keys
   \<and> map fst (toResponseDto (ann\<lparr>updatedAt := 50\<rparr>)) = response_keys
   \<and> map fst (toResponseDto (bob\<lparr>walletAddress := Some ''0xef'', updatedAt := 40\<rparr>))
       = response_keys"
  using responses_have_public_keys [of salted "''c''" 30 cy_dto two_users None None "''a''"
      "ann_update" "''0xAB''"]
    responses_have_public_keys [of salted "''c''" 50 cy_dto two_users None None "''a''"
      "ann_update" "''0xAB''"]
    responses_have_public_keys [of salted "''c''" 40 cy_dto two_users None None "''b''"
      "ann_update" "''0xEF''"]
    run_create_cy run_findAll_two(2) run_findById_ann run_update_ann run_link_bob(1)
    run_findByWallet_ann
  by simp

section \<open>linkWallet\<close>

lemma svc_linkWallet_empty_id:
  "svc_linkWallet now [] w d = (Inl (BadRequest ''User ID is required''), d)"
  by (simp add: svc_linkWallet_def truthy_str_def)

lemma svc_linkWallet_absent:
  "i \<noteq> [] \<Longrightarrow> \<not> user_exists i (rows d) \<Longrightarrow>
     svc_linkWallet now i w d
       = (Inl (NotFound (''User with ID '' @ i @ '' not found'')), logq QCount d)"
  by (simp add: svc_linkWallet_def truthy_str_def repo_exists_eq)

lemma svc_linkWallet_taken:
  assumes "i \<noteq> []" and "user_exists i (rows d)" and "wallet_stored_by_other w i (rows d)"
  shows "svc_linkWallet now i w d =
     (Inl (Conflict ''Wallet address is already linked to another account''),
      logq QCount (logq QCount d))"
  using assms
  by (simp add: svc_linkWallet_def truthy_str_def repo_exists_eq repo_walletExists_Some
      rows_logq wallet_stored_by_other_def)

lemma svc_linkWallet_free:
  assumes "i \<noteq> []" and "find (\<lambda>u. uid u = i) (rows d) = Some u"
    and "\<not> wallet_stored_by_other w i (rows d)"
  shows "svc_linkWallet now i w d =
     (Inr (toResponseDto
             (apply_partial \<lparr>u_name = None, u_email = None, u_password = None, u_role = None,
                u_walletAddress = Some (toLowerCase w)\<rparr> now u)),
      logq QSelect
        (logq QUpdate
          ((logq QCount (logq QCount d))
             \<lparr>rows := map (\<lambda>u. if uid u = i
                                then apply_partial
                                       \<lparr>u_name = None, u_email = None, u_password = None,
                                        u_role = None,
                                        u_walletAddress = Some (toLowerCase w)\<rparr> now u
                                else u) (rows d)\<rparr>)))"
proof -
  from find_Some_holds [OF assms(2)] have ex: "user_exists i (rows d)"
    by (auto simp: user_exists_def)
  have acc: "\<not> update_rejected i \<lparr>u_name = None, u_email = None, u_password = None,
                 u_role = None, u_walletAddress = Some (toLowerCase w)\<rparr>
               (rows (logq QCount (logq QCount d)))"
    using assms(3) by (simp add: update_rejected_link rows_logq wallet_stored_by_other_def)
  have taken: "\<not> (\<exists>v\<in>set (rows d). uid v \<noteq> i \<and> walletAddress v = Some (toLowerCase w))"
    using assms(3) by (simp only: wallet_stored_by_other_def not_False_eq_True)
  show ?thesis
    using assms(1,2) ex
    by (simp add: svc_linkWallet_def truthy_str_def repo_exists_eq repo_walletExists_Some
        rows_logq taken repo_linkWallet_eq repo_update_eq [OF acc] orm_update_accepted [OF acc]
        toResponseDto_select_public)
qed

lemma svc_linkWallet_success:
  assumes "fst (svc_linkWallet now i w d) = Inr r"
  shows "i \<noteq> [] \<and> user_exists i (rows d) \<and> \<not> wallet_stored_by_other w i (rows d)"
proof -
  have ne: "i \<noteq> []"
    using assms by (auto simp: svc_linkWallet_empty_id)
  have ex: "user_exists i (rows d)"
  proof (rule ccontr)
    assume "\<not> user_exists i (rows d)"
    with assms ne show False by (simp add: svc_linkWallet_absent)
  qed
  have "\<not> wallet_stored_by_other w i (rows d)"
  proof
    assume "wallet_stored_by_other w i (rows d)"
    from svc_linkWallet_taken [OF ne ex this, of now] assms show False
      by simp
  qed
  with ne ex show ?thesis by simp
qed

lemma taken_after_link_same:
  "(\<exists>v\<in>set (map (\<lambda>u. if uid u = i then apply_partial p now u else u) us).
       uid v \<noteq> i \<and> walletAddress v = x)
   = (\<exists>v\<in>set us. uid v \<noteq> i \<and> walletAddress v = x)"
  by (induction us) (auto simp: uid_apply_partial)

lemma taken_after_link_other:
  assumes "user_exists i us" and "j \<noteq> i" and "u_walletAddress p = Some x"
  shows "\<exists>v\<in>set (map (\<lambda>u. if uid u = i then apply_partial p now u else u) us).
           uid v \<noteq> j \<and> walletAddress v = Some x"
proof -
  from assms(1) obtain u where u: "u \<in> set us" "uid u = i"
    by (auto simp: user_exists_def)
  then have "apply_partial p now u
               \<in> set (map (\<lambda>u. if uid u = i then apply_partial p now u else u) us)"
    by force
  moreover have "uid (apply_partial p now u) \<noteq> j"
    using u assms(2) by (simp add: uid_apply_partial)
  moreover have "walletAddress (apply_partial p now u) = Some x"
    using assms(3) by (simp add: apply_partial_def)
  ultimately show ?thesis by blast
qed

lemma linkWallet_keeps_wallets_lowercase:
  assumes "wallets_lowercase (rows d)"
  shows "wallets_lowercase (rows (snd (svc_linkWallet now i w d)))"
proof -
  have upd: "wallets_lowercase
               (map (\<lambda>u. if uid u = i
                          then apply_partial \<lparr>u_name = None, u_email = None, u_password = None,
                                 u_role = None, u_walletAddress = Some (toLowerCase w)\<rparr> now u
                          else u) us)"
    if "wallets_lowercase us" for us
    using that by (auto simp: wallets_lowercase_def apply_partial_def toLowerCase_idem)
  show ?thesis
  proof (cases "i = []")
    case True
    with assms show ?thesis
      by (simp add: svc_linkWallet_empty_id)
  next
    case ne: False
    show ?thesis
    proof (cases "user_exists i (rows d)")
      case False
      with ne assms show ?thesis
        by (simp add: svc_linkWallet_absent rows_logq)
    next
      case ex: True
      show ?thesis
      proof (cases "wallet_stored_by_other w i (rows d)")
        case True
        from svc_linkWallet_taken [OF ne ex True, of now] assms show ?thesis
          by (simp add: rows_logq)
      next
        case False
        from user_exists_find [OF ex] obtain u where
          "find (\<lambda>u. uid u = i) (rows d) = Some u" by blast
        from svc_linkWallet_free [OF ne this False, of now] upd [OF assms] show ?thesis
          by (simp add: rows_logq)
      qed
    qed
  qed
qed

lemma linkWallet_sequence:
  assumes "fst (svc_linkWallet now i w d) = Inr r"
  shows "fst (svc_linkWallet now i w (snd (svc_linkWallet now i w d))) = Inr r"
    and "rows (snd (svc_linkWallet now i w (snd (svc_linkWallet now i w d))))
           = rows (snd (svc_linkWallet now i w d))"
    and "\<exists>r'. fst (svc_linkWallet now' i w (snd (svc_linkWallet now i w d))) = Inr r'"
    and "j \<noteq> i \<Longrightarrow> j \<noteq> [] \<Longrightarrow> user_exists j (rows d) \<Longrightarrow>
           fst (svc_linkWallet now' j w (snd (svc_linkWallet now i w d)))
             = Inl (Conflict ''Wallet address is already linked to another account'')"
proof -
  define p where "p = \<lparr>u_name = None, u_email = None, u_password = None, u_role = None,
                u_walletAddress = Some (toLowerCase w)\<rparr>"
  define upd where "upd = (\<lambda>u. if uid u = i then apply_partial p now u else u)"
  from svc_linkWallet_success [OF assms]
  have ne: "i \<noteq> []" and ex: "user_exists i (rows d)"
    and free: "\<not> wallet_stored_by_other w i (rows d)"
    by simp_all
  from user_exists_find [OF ex] obtain u where
    u: "find (\<lambda>u. uid u = i) (rows d) = Some u" by blast
  note first = svc_linkWallet_free [OF ne u free, of now, folded p_def, folded upd_def]
  have r: "r = toResponseDto (apply_partial p now u)"
    using assms by (simp add: first)
  have rows1: "rows (snd (svc_linkWallet now i w d)) = map upd (rows d)"
    by (simp add: first rows_logq)
  have find1: "find (\<lambda>u. uid u = i) (rows (snd (svc_linkWallet now i w d)))
                 = Some (apply_partial p now u)"
    by (simp add: rows1 upd_def find_uid_map_update u)
  have free1: "\<not> wallet_stored_by_other w i (rows (snd (svc_linkWallet now i w d)))"
    using free unfolding wallet_stored_by_other_def rows1 upd_def taken_after_link_same .
  note again = svc_linkWallet_free [OF ne find1 free1, folded p_def]
  show "fst (svc_linkWallet now i w (snd (svc_linkWallet now i w d))) = Inr r"
    by (simp add: again r apply_partial_twice)
  show "rows (snd (svc_linkWallet now i w (snd (svc_linkWallet now i w d))))
           = rows (snd (svc_linkWallet now i w d))"
    by (simp add: again rows_logq rows1 upd_def apply_partial_twice uid_apply_partial)
  show "\<exists>r'. fst (svc_linkWallet now' i w (snd (svc_linkWallet now i w d))) = Inr r'"
    by (simp add: again)
  show "fst (svc_linkWallet now' j w (snd (svc_linkWallet now i w d)))
             = Inl (Conflict ''Wallet address is already linked to another account'')"
    if j: "j \<noteq> i" "j \<noteq> []" "user_exists j (rows d)"
  proof -
    have exj: "user_exists j (rows (snd (svc_linkWallet now i w d)))"
      using j by (simp add: rows1 upd_def user_exists_map_update)
    have "wallet_stored_by_other w j (rows (snd (svc_linkWallet now i w d)))"
      unfolding wallet_stored_by_other_def rows1 upd_def
      by (rule taken_after_link_other [OF ex j(1)]) (simp add: p_def)
    from svc_linkWallet_taken [OF j(2) exj this] show ?thesis
      by simp
  qed
qed

text \<open>
  Claim C4, amended. For a non-empty id of an existing user, \<^verbatim>\<open>linkWallet\<close> ends
  in Conflict or in success; it fails with Conflict only when a user other than
  \<open>i\<close> holds the address up to letter case, it does fail with Conflict when such a
  user has the lowercase form of the address as stored wallet address, and it
  succeeds when no other user holds the address up to letter case. When
  \<^verbatim>\<open>linkWallet\<close> succeeds, a second \<^verbatim>\<open>linkWallet\<close> of the same user and address
  succeeds too (at the same instant with the same response and the same rows), and
  \<^verbatim>\<open>linkWallet\<close> of that address for any other existing user fails with Conflict.
\<close>

theorem linkWallet_between_users:
  "(i \<noteq> [] \<and> user_exists i (rows d) \<longrightarrow>
      (fst (svc_linkWallet now i w d)
         = Inl (Conflict ''Wallet address is already linked to another account'')
       \<or> (\<exists>r. fst (svc_linkWallet now i w d) = Inr r))
      \<and> (fst (svc_linkWallet now i w d)
            = Inl (Conflict ''Wallet address is already linked to another account'')
          \<longrightarrow> wallet_of_other w i (rows d))
      \<and> (wallet_stored_by_other w i (rows d) \<longrightarrow>
            fst (svc_linkWallet now i w d)
              = Inl (Conflict ''Wallet address is already linked to another account'')
            \<and> rows (snd (svc_linkWallet now i w d)) = rows d)
      \<and> (\<not> wallet_of_other w i (rows d) \<longrightarrow> (\<exists>r. fst (svc_linkWallet now i w d) = Inr r)))
   \<and> (\<forall>r. fst (svc_linkWallet now i w d) = Inr r \<longrightarrow>
          fst (svc_linkWallet now i w (snd (svc_linkWallet now i w d))) = Inr r
          \<and> rows (snd (svc_linkWallet now i w (snd (svc_linkWallet now i w d))))
              = rows (snd (svc_linkWallet now i w d))
          \<and> (\<exists>r'. fst (svc_linkWallet now' i w (snd (svc_linkWallet now i w d))) = Inr r')
          \<and> (\<forall>j. j \<noteq> i \<and> j \<noteq> [] \<and> user_exists j (rows d) \<longrightarrow>
                fst (svc_linkWallet now' j w (snd (svc_linkWallet now i w d)))
                  = Inl (Conflict ''Wallet address is already linked to another account'')))"
proof (intro conjI impI allI)
  assume a: "i \<noteq> [] \<and> user_exists i (rows d)"
  then obtain u where u: "find (\<lambda>u. uid u = i) (rows d) = Some u"
    using user_exists_find by blast
  show cases: "fst (svc_linkWallet now i w d)
         = Inl (Conflict ''Wallet address is already linked to another account'')
       \<or> (\<exists>r. fst (svc_linkWallet now i w d) = Inr r)"
  proof (cases "wallet_stored_by_other w i (rows d)")
    case True
    with a show ?thesis by (simp add: svc_linkWallet_taken)
  next
    case False
    with a u show ?thesis by (simp add: svc_linkWallet_free)
  qed
  show "wallet_of_other w i (rows d)"
    if c: "fst (svc_linkWallet now i w d)
            = Inl (Conflict ''Wallet address is already linked to another account'')"
  proof (rule ccontr)
    assume "\<not> wallet_of_other w i (rows d)"
    then have "\<not> wallet_stored_by_other w i (rows d)"
      using stored_by_other_holds_it by blast
    with a u c show False by (simp add: svc_linkWallet_free)
  qed
  show "fst (svc_linkWallet now i w d)
              = Inl (Conflict ''Wallet address is already linked to another account'')"
    and "rows (snd (svc_linkWallet now i w d)) = rows d"
    if "wallet_stored_by_other w i (rows d)"
    using a that by (simp_all add: svc_linkWallet_taken rows_logq)
  show "\<exists>r. fst (svc_linkWallet now i w d) = Inr r" if "\<not> wallet_of_other w i (rows d)"
  proof -
    from that have "\<not> wallet_stored_by_other w i (rows d)"
      using stored_by_other_holds_it by blast
    with a u show ?thesis by (simp add: svc_linkWallet_free)
  qed
next
  fix r assume s: "fst (svc_linkWallet now i w d) = Inr r"
  show "fst (svc_linkWallet now i w (snd (svc_linkWallet now i w d))) = Inr r"
    by (rule linkWallet_sequence(1) [OF s])
  show "rows (snd (svc_linkWallet now i w (snd (svc_linkWallet now i w d))))
              = rows (snd (svc_linkWallet now i w d))"
    by (rule linkWallet_sequence(2) [OF s])
  show "\<exists>r'. fst (svc_linkWallet now' i w (snd (svc_linkWallet now i w d))) = Inr r'"
    by (rule linkWallet_sequence(3) [OF s])
  show "fst (svc_linkWallet now' j w (snd (svc_linkWallet now i w d)))
                  = Inl (Conflict ''Wallet address is already linked to another account'')"
    if "j \<noteq> i \<and> j \<noteq> [] \<and> user_exists j (rows d)" for j
    using that linkWallet_sequence(4) [OF s] by blast
qed

text \<open>A concrete run of the theorem above on the small store.\<close>

theorem linkWallet_between_users_witness:
  "''b'' \<noteq> [] \<and> user_exists ''b'' (rows two_users)
   \<and> wallet_stored_by_other ''0xAB'' ''b'' (rows two_users)
   \<and> fst (svc_linkWallet 40 ''b'' ''0xAB'' two_users)
       = Inl (Conflict ''Wallet address is already linked to another account'')
   \<and> wallet_of_other ''0xAB'' ''b'' (rows two_users)
   \<and> \<not> wallet_of_other ''0xEF'' ''b'' (rows two_users)
   \<and> fst (svc_linkWallet 40 ''b'' ''0xEF'' two_users)
       = Inr (toResponseDto (bob\<lparr>walletAddress := Some ''0xef'', updatedAt := 40\<rparr>))
   \<and> fst (svc_linkWallet 40 ''b'' ''0xEF'' (snd (svc_linkWallet 40 ''b'' ''0xEF'' two_users)))
       = Inr (toResponseDto (bob\<lparr>walletAddress := Some ''0xef'', updatedAt := 40\<rparr>))
   \<and> ''a'' \<noteq> ''b'' \<and> ''a'' \<noteq> [] \<and> user_exists ''a'' (rows two_users)
   \<and> fst (svc_linkWallet 41 ''a'' ''0xEF'' (snd (svc_linkWallet 40 ''b'' ''0xEF'' two_users)))
       = Inl (Conflict ''Wallet address is already linked to another account'')"
proof -
  have ne: "''b'' \<noteq> []" by simp
  have ex: "user_exists ''b'' (rows two_users)" "user_exists ''a'' (rows two_users)"
    by (simp_all add: store_defs probe_defs)
  have taken: "wallet_stored_by_other ''0xAB'' ''b'' (rows two_users)"
    by (simp add: store_defs probe_defs)
  have free: "\<not> wallet_of_other ''0xEF'' ''b'' (rows two_users)"
    by (simp add: store_defs probe_defs)
  note t1 = linkWallet_between_users [of "''b''" two_users 40 "''0xAB''" 41]
  note t2 = linkWallet_between_users [of "''b''" two_users 40 "''0xEF''" 41]
  from t1 ne ex(1) taken have c1: "fst (svc_linkWallet 40 ''b'' ''0xAB'' two_users)
       = Inl (Conflict ''Wallet address is already linked to another account'')"
    by blast
  with t1 ne ex(1) have held: "wallet_of_other ''0xAB'' ''b'' (rows two_users)"
    by blast
  from t2 run_link_bob(1) have c2:
    "fst (svc_linkWallet 40 ''b'' ''0xEF'' (snd (svc_linkWallet 40 ''b'' ''0xEF'' two_users)))
       = Inr (toResponseDto (bob\<lparr>walletAddress := Some ''0xef'', updatedAt := 40\<rparr>))"
    by blast
  from t2 run_link_bob(1) have all:
    "\<forall>j. j \<noteq> ''b'' \<and> j \<noteq> [] \<and> user_exists j (rows two_users) \<longrightarrow>
         fst (svc_linkWallet 41 j ''0xEF'' (snd (svc_linkWallet 40 ''b'' ''0xEF'' two_users)))
           = Inl (Conflict ''Wallet address is already linked to another account'')"
    by blast
  with ex(2) have c3:
    "fst (svc_linkWallet 41 ''a'' ''0xEF'' (snd (svc_linkWallet 40 ''b'' ''0xEF'' two_users)))
       = Inl (Conflict ''Wallet address is already linked to another account'')"
    by simp
  show ?thesis
    using ex taken held free c1 c2 c3 run_link_bob(1) by simp
qed

text \<open>
  As stated, the claim does not hold for an id that no user has: after bob links the
  address, \<^verbatim>\<open>linkWallet\<close> of the same address for the unknown id \<open>zz\<close> fails
  with NotFound, not with Conflict.
\<close>

theorem linkWallet_absent_user_counterexample:
  "fst (svc_linkWallet 40 ''b'' ''0xEF'' two_users)
     = Inr (toResponseDto (bob\<lparr>walletAddress := Some ''0xef'', updatedAt := 40\<rparr>))
   \<and> ''zz'' \<noteq> ''b''
   \<and> wallet_of_other ''0xEF'' ''zz'' (rows (snd (svc_linkWallet 40 ''b'' ''0xEF'' two_users)))
   \<and> fst (svc_linkWallet 41 ''zz'' ''0xEF'' (snd (svc_linkWallet 40 ''b'' ''0xEF'' two_users)))
       = Inl (NotFound ''User with ID zz not found'')
   \<and> fst (svc_linkWallet 41 ''zz'' ''0xEF'' (snd (svc_linkWallet 40 ''b'' ''0xEF'' two_users)))
       \<noteq> Inl (Conflict ''Wallet address is already linked to another account'')"
proof -
  have absent: "\<not> user_exists ''zz'' (rows (snd (svc_linkWallet 40 ''b'' ''0xEF'' two_users)))"
    by (simp add: run_link_bob(2)) (simp add: store_defs probe_defs)
  have "wallet_of_other ''0xEF'' ''zz'' (rows (snd (svc_linkWallet 40 ''b'' ''0xEF'' two_users)))"
    by (simp add: run_link_bob(2)) (simp add: store_defs probe_defs)
  moreover have "fst (svc_linkWallet 41 ''zz'' ''0xEF'' (snd (svc_linkWallet 40 ''b'' ''0xEF'' two_users)))
       = Inl (NotFound ''User with ID zz not found'')"
    using svc_linkWallet_absent [OF _ absent, of 41 "''0xEF''"] by simp
  ultimately show ?thesis
    using run_link_bob(1) by simp
qed

text \<open>
  An address that \<^verbatim>\<open>update\<close> stored in mixed case does not stop \<^verbatim>\<open>linkWallet\<close>
  of that address for another user: the part of the original claim that the
  amended one leaves open.
\<close>

lemma linkWallet_after_unnormalised_update:
  "fst (svc_linkWallet 60 ''a'' mixed_address
          (snd (svc_update salted 50 ''b'' wallet_update two_users)))
     = Inr (toResponseDto
              (ann\<lparr>walletAddress := Some ''0xabcdef1234567890abcdef1234567890abcdef12'',
                   updatedAt := 60\<rparr>))"
  by (simp add: run_update_bob_wallet)
     (simp add: run_defs store_defs toLowerCase_def lower_char_def toResponseDto_def)

section \<open>findAll and the listing endpoint\<close>

lemma findAll_query_numbers:
  "findAll_query (Some (Num p)) (Some (Num l)) None =
     (if p \<noteq> 0 \<and> l \<noteq> 0
      then \<lparr>q_startDate = None, q_endDate = None,
            q_skip = Some (Num ((p - 1) * l)), q_take = Some (Num l)\<rparr>
      else \<lparr>q_startDate = None, q_endDate = None, q_skip = None, q_take = None\<rparr>)"
  by (simp add: findAll_query_def Let_def)

lemma findAll_query_falsy:
  "\<not> (truthy_num page \<and> truthy_num limit) \<Longrightarrow>
     findAll_query page limit None
       = \<lparr>q_startDate = None, q_endDate = None, q_skip = None, q_take = None\<rparr>"
  by (auto simp add: findAll_query_def Let_def)

lemma where_dates_unfiltered:
  "q_startDate q = None \<Longrightarrow> q_endDate q = None \<Longrightarrow> filter (where_dates q) us = us"
  by (simp add: where_dates_def)

lemma length_orderByCreatedAtDesc: "length (orderByCreatedAtDesc us) = length us"
  by (simp add: orderByCreatedAtDesc_def)

lemma getManyAndCount_page:
  "0 \<le> s \<Longrightarrow> 0 \<le> t \<Longrightarrow>
   getManyAndCount \<lparr>q_startDate = None, q_endDate = None,
                     q_skip = Some (Num s), q_take = Some (Num t)\<rparr> d
     = (Inr (map select_public (take (nat t) (drop (nat s) (orderByCreatedAtDesc (rows d)))),
             length (rows d)),
        logq QSelect d)"
  by (simp add: getManyAndCount_def Let_def where_dates_unfiltered length_orderByCreatedAtDesc
      take_map drop_map)

lemma getManyAndCount_all:
  "getManyAndCount \<lparr>q_startDate = None, q_endDate = None, q_skip = None, q_take = None\<rparr> d
     = (Inr (map select_public (orderByCreatedAtDesc (rows d)), length (rows d)), logq QSelect d)"
  by (simp add: getManyAndCount_def Let_def where_dates_unfiltered length_orderByCreatedAtDesc)

lemma createdAt_desc_ordered: "createdAt_desc (orderByCreatedAtDesc us)"
  by (simp add: createdAt_desc_def orderByCreatedAtDesc_def)

lemma createdAt_desc_window: "createdAt_desc us \<Longrightarrow> createdAt_desc (take n (drop m us))"
  by (simp add: createdAt_desc_def take_map [symmetric] drop_map [symmetric])

lemma rows_svc_findAll: "rows (snd (svc_findAll page limit d)) = rows d"
  by (simp add: svc_findAll_def repo_findAll_def getManyAndCount_def Let_def rows_logq
      split: prod.splits sum.splits)

text \<open>
  Claim C5. For \<open>p \<ge> 1\<close> and \<open>l \<ge> 1\<close>, \<^verbatim>\<open>findAll(p, l)\<close> returns the
  stored users in descending order of \<open>createdAt\<close>, from offset \<open>(p - 1) * l\<close>, at
  most \<open>l\<close> of them, with the count of all rows as total; without page and limit
  it returns all of them in that order. The ordered list is a permutation of the
  rows, and \<^verbatim>\<open>findAll\<close> changes no row.
\<close>

theorem findAll_pages:
  "(1 \<le> p \<and> 1 \<le> l \<longrightarrow>
      fst (repo_findAll (Some (Num p)) (Some (Num l)) None d)
        = Inr (map select_public
                 (take (nat l) (drop (nat ((p - 1) * l)) (orderByCreatedAtDesc (rows d)))),
               length (rows d))
      \<and> fst (svc_findAll (Some (Num p)) (Some (Num l)) d)
        = Inr (map toResponseDto
                 (take (nat l) (drop (nat ((p - 1) * l)) (orderByCreatedAtDesc (rows d)))),
               length (rows d))
      \<and> length (take (nat l) (drop (nat ((p - 1) * l)) (orderByCreatedAtDesc (rows d)))) \<le> nat l
      \<and> createdAt_desc
           (take (nat l) (drop (nat ((p - 1) * l)) (orderByCreatedAtDesc (rows d)))))
   \<and> fst (svc_findAll None None d)
       = Inr (map toResponseDto (orderByCreatedAtDesc (rows d)), length (rows d))
   \<and> createdAt_desc (orderByCreatedAtDesc (rows d))
   \<and> mset (orderByCreatedAtDesc (rows d)) = mset (rows d)
   \<and> rows (snd (svc_findAll page limit d)) = rows d"
proof (intro conjI impI)
  assume pl: "1 \<le> p \<and> 1 \<le> l"
  then have nn: "0 \<le> (p - 1) * l" "0 \<le> l" "p \<noteq> 0" "l \<noteq> 0"
    by simp_all
  show repo: "fst (repo_findAll (Some (Num p)) (Some (Num l)) None d)
        = Inr (map select_public
                 (take (nat l) (drop (nat ((p - 1) * l)) (orderByCreatedAtDesc (rows d)))),
               length (rows d))"
    using nn by (simp add: repo_findAll_def findAll_query_numbers getManyAndCount_page)
  show "fst (svc_findAll (Some (Num p)) (Some (Num l)) d)
        = Inr (map toResponseDto
                 (take (nat l) (drop (nat ((p - 1) * l)) (orderByCreatedAtDesc (rows d)))),
               length (rows d))"
    using nn
    by (simp add: svc_findAll_def repo_findAll_def findAll_query_numbers getManyAndCount_page
        toResponseDto_select_public)
  show "length (take (nat l) (drop (nat ((p - 1) * l)) (orderByCreatedAtDesc (rows d)))) \<le> nat l"
    by simp
  show "createdAt_desc
           (take (nat l) (drop (nat ((p - 1) * l)) (orderByCreatedAtDesc (rows d))))"
    by (intro createdAt_desc_window createdAt_desc_ordered)
next
  show "fst (svc_findAll None None d)
       = Inr (map toResponseDto (orderByCreatedAtDesc (rows d)), length (rows d))"
    by (simp add: svc_findAll_def repo_findAll_def findAll_query_falsy getManyAndCount_all
        toResponseDto_select_public)
next
  show "createdAt_desc (orderByCreatedAtDesc (rows d))"
    by (rule createdAt_desc_ordered)
next
  show "mset (orderByCreatedAtDesc (rows d)) = mset (rows d)"
    by (simp add: orderByCreatedAtDesc_def)
next
  show "rows (snd (svc_findAll page limit d)) = rows d"
    by (rule rows_svc_findAll)
qed

text \<open>A concrete run of the theorem above on the small store.\<close>

theorem findAll_pages_witness:
  "(1::int) \<le> 2 \<and> (1::int) \<le> 1
   \<and> orderByCreatedAtDesc (rows two_users) = [bob, ann]
   \<and> fst (svc_findAll (Some (Num 2)) (Some (Num 1)) two_users) = Inr ([toResponseDto ann], 2)
   \<and> fst (svc_findAll (Some (Num 1)) (Some (Num 1)) two_users) = Inr ([toResponseDto bob], 2)
   \<and> fst (svc_findAll None None two_users) = Inr ([toResponseDto bob, toResponseDto ann], 2)"
proof -
  have ord: "orderByCreatedAtDesc (rows two_users) = [bob, ann]"
    by (simp add: orderByCreatedAtDesc_def store_defs)
  show ?thesis
    using findAll_pages [of 2 1 two_users None None] findAll_pages [of 1 1 two_users None None]
    by (simp add: ord) (simp add: two_users_def)
qed

lemma takeWhile_no_digit: "no_digit r \<Longrightarrow> takeWhile is_digit r = []"
  by (cases r) (simp_all add: no_digit_def)

lemma no_digit_dropWhile: "no_digit s \<Longrightarrow> no_digit (dropWhile P s)"
  by (auto simp: no_digit_def dest: set_dropWhileD)

lemma parseInt_no_digit: "no_digit s \<Longrightarrow> parseInt s = NaN"
proof -
  assume "no_digit s"
  then have t: "no_digit (dropWhile is_space s)"
    by (rule no_digit_dropWhile)
  show ?thesis
  proof (cases "dropWhile is_space s")
    case Nil
    show ?thesis unfolding parseInt_def Let_def Nil by simp
  next
    case (Cons c cs)
    with t have "no_digit (c # cs)" "no_digit cs"
      by (simp_all add: no_digit_def)
    then have "takeWhile is_digit (c # cs) = []" "takeWhile is_digit cs = []"
      by (simp_all only: takeWhile_no_digit)
    then show ?thesis
      unfolding parseInt_def Let_def Cons by simp
  qed
qed

lemma parseInt_defaults: "parseInt ''1'' = Num 1" "parseInt ''10'' = Num 10"
  by (simp_all add: parseInt_def is_space_def is_digit_def digits_value_def digit_val_def)

text \<open>
  Claim C9, amended. \<^verbatim>\<open>GET /users\<close> without parameters is the request with
  \<^verbatim>\<open>page = '1'\<close> and \<^verbatim>\<open>limit = '10'\<close>, parsed to 1 and 10. A string without a
  digit parses to \<^verbatim>\<open>NaN\<close> (a string that starts with an integer, such as
  \<^verbatim>\<open>'12abc'\<close>, parses to that integer). When the page or the limit parses to \<^verbatim>\<open>NaN\<close> the
  request is not rejected: \<^verbatim>\<open>NaN\<close> is falsy, the guard \<^verbatim>\<open>page && limit\<close> fails,
  the query gets neither \<^verbatim>\<open>skip\<close> nor \<^verbatim>\<open>take\<close>, and the envelope carries all
  users in order, with the parsed values as page and limit.
\<close>

theorem listing_parameters:
  "ctrl_findAll None None d = ctrl_findAll (Some ''1'') (Some ''10'') d
   \<and> parseInt ''1'' = Num 1 \<and> parseInt ''10'' = Num 10
   \<and> parseInt ''12abc'' = Num 12
   \<and> (no_digit s \<longrightarrow> parseInt s = NaN)
   \<and> (parseInt ps = NaN \<or> parseInt ls = NaN \<longrightarrow>
        findAll_query (Some (parseInt ps)) (Some (parseInt ls)) None
          = \<lparr>q_startDate = None, q_endDate = None, q_skip = None, q_take = None\<rparr>
        \<and> fst (ctrl_findAll (Some ps) (Some ls) d)
            = Inr \<lparr>e_message = ''Users retrieved successfully'',
                   e_data = map toResponseDto (orderByCreatedAtDesc (rows d)),
                   e_total = length (rows d),
                   e_page = parseInt ps,
                   e_limit = parseInt ls\<rparr>)"
proof (intro conjI impI)
  show "ctrl_findAll None None d = ctrl_findAll (Some ''1'') (Some ''10'') d"
    by (simp add: ctrl_findAll_def)
  show "parseInt ''1'' = Num 1" "parseInt ''10'' = Num 10"
    by (rule parseInt_defaults)+
  show "parseInt ''12abc'' = Num 12"
    by (simp add: parseInt_def is_space_def is_digit_def digits_value_def digit_val_def)
  show "parseInt s = NaN" if "no_digit s"
    using that by (rule parseInt_no_digit)
next
  assume "parseInt ps = NaN \<or> parseInt ls = NaN"
  then have falsy: "\<not> (truthy_num (Some (parseInt ps)) \<and> truthy_num (Some (parseInt ls)))"
    by auto
  then show q: "findAll_query (Some (parseInt ps)) (Some (parseInt ls)) None
          = \<lparr>q_startDate = None, q_endDate = None, q_skip = None, q_take = None\<rparr>"
    by (rule findAll_query_falsy)
  show "fst (ctrl_findAll (Some ps) (Some ls) d)
            = Inr \<lparr>e_message = ''Users retrieved successfully'',
                   e_data = map toResponseDto (orderByCreatedAtDesc (rows d)),
                   e_total = length (rows d),
                   e_page = parseInt ps,
                   e_limit = parseInt ls\<rparr>"
    by (simp add: ctrl_findAll_def svc_findAll_def repo_findAll_def q getManyAndCount_all
        toResponseDto_select_public Let_def)
qed

text \<open>A concrete run of the theorem above on the small store.\<close>

theorem listing_parameters_witness:
  "no_digit ''abc'' \<and> parseInt ''abc'' = NaN
   \<and> findAll_query (Some (parseInt ''abc'')) (Some (parseInt ''10'')) None
       = \<lparr>q_startDate = None, q_endDate = None, q_skip = None, q_take = None\<rparr>
   \<and> fst (ctrl_findAll (Some ''abc'') (Some ''10'') two_users)
       = Inr \<lparr>e_message = ''Users retrieved successfully'',
              e_data = [toResponseDto bob, toResponseDto ann],
              e_total = 2, e_page = NaN, e_limit = Num 10\<rparr>"
proof -
  have nd: "no_digit ''abc''"
    by (simp add: no_digit_def is_digit_def)
  have ord: "orderByCreatedAtDesc (rows two_users) = [bob, ann]"
    by (simp add: orderByCreatedAtDesc_def store_defs)
  note t = listing_parameters [of two_users "''abc''" "''abc''" "''10''"]
  from t nd have nan: "parseInt ''abc'' = NaN" by blast
  from t nan have q: "findAll_query (Some (parseInt ''abc'')) (Some (parseInt ''10'')) None
       = \<lparr>q_startDate = None, q_endDate = None, q_skip = None, q_take = None\<rparr>"
    and r: "fst (ctrl_findAll (Some ''abc'') (Some ''10'') two_users)
            = Inr \<lparr>e_message = ''Users retrieved successfully'',
                   e_data = map toResponseDto (orderByCreatedAtDesc (rows two_users)),
                   e_total = length (rows two_users),
                   e_page = parseInt ''abc'',
                   e_limit = parseInt ''10''\<rparr>"
    and ten: "parseInt ''10'' = Num 10"
    by blast+
  have len: "length (rows two_users) = 2"
    by (simp add: two_users_def)
  show ?thesis
    using nd nan q by (simp add: r ord len ten)
qed

text \<open>
  As stated, the claim does not hold: for \<^verbatim>\<open>page = 'abc'\<close> the query has no
  \<^verbatim>\<open>skip\<close> at all, so \<^verbatim>\<open>NaN\<close> does not reach the offset computation, and the
  listing returns both users although the limit is 1.
\<close>

theorem nan_page_skips_paging_counterexample:
  "parseInt ''abc'' = NaN
   \<and> q_skip (findAll_query (Some (parseInt ''abc'')) (Some (parseInt ''10'')) None) = None
   \<and> q_skip (findAll_query (Some (parseInt ''abc'')) (Some (parseInt ''10'')) None) \<noteq> Some NaN
   \<and> q_take (findAll_query (Some (parseInt ''abc'')) (Some (parseInt ''10'')) None) = None
   \<and> fst (ctrl_findAll (Some ''abc'') (Some ''1'') two_users)
       = Inr \<lparr>e_message = ''Users retrieved successfully'',
              e_data = [toResponseDto bob, toResponseDto ann],
              e_total = 2, e_page = NaN, e_limit = Num 1\<rparr>"
proof -
  have nan: "parseInt ''abc'' = NaN"
    by (simp add: parseInt_def is_space_def is_digit_def)
  have one: "parseInt ''1'' = Num 1"
    by (rule parseInt_defaults)
  show ?thesis
    by (simp add: nan one findAll_query_def Let_def)
       (simp add: run_defs store_defs nan one toResponseDto_def)
qed

section \<open>update\<close>









section \<open>delete\<close>

lemma svc_delete_eq:
  "svc_delete i d =
     (if i = [] then (Inl (BadRequest ''User ID is required''), d)
      else if \<not> user_exists i (rows d)
      then (Inl (NotFound (''User with ID '' @ i @ '' not found'')), logq QCount d)
      else (Inr (), logq QDelete ((logq QCount d)\<lparr>rows := filter (\<lambda>u. uid u \<noteq> i) (rows d)\<rparr>)))"
  by (simp add: svc_delete_def truthy_str_def repo_exists_eq repo_delete_eq rows_logq)

lemma not_exists_after_filter: "\<not> user_exists i (filter (\<lambda>u. uid u \<noteq> i) us)"
  by (simp add: user_exists_def)

lemma delete_keeps_wallets_lowercase:
  assumes "wallets_lowercase (rows d)"
  shows "wallets_lowercase (rows (snd (svc_delete i d)))"
  using assms by (auto simp: svc_delete_eq rows_logq wallets_lowercase_def)

text \<open>
  Claim C7. \<^verbatim>\<open>delete\<close> fails with BadRequest on the empty id, without touching
  the store; it fails with NotFound when no user has the id; and when a user has the
  id it succeeds, removes the rows with that id, and a second \<^verbatim>\<open>delete\<close> of the
  same id on the resulting store fails with NotFound.
\<close>

theorem delete_outcomes:
  "svc_delete [] d = (Inl (BadRequest ''User ID is required''), d)
   \<and> (i \<noteq> [] \<and> \<not> user_exists i (rows d) \<longrightarrow>
        fst (svc_delete i d) = Inl (NotFound (''User with ID '' @ i @ '' not found''))
        \<and> rows (snd (svc_delete i d)) = rows d)
   \<and> (i \<noteq> [] \<and> user_exists i (rows d) \<longrightarrow>
        fst (svc_delete i d) = Inr ()
        \<and> rows (snd (svc_delete i d)) = filter (\<lambda>u. uid u \<noteq> i) (rows d)
        \<and> \<not> user_exists i (rows (snd (svc_delete i d)))
        \<and> fst (svc_delete i (snd (svc_delete i d)))
            = Inl (NotFound (''User with ID '' @ i @ '' not found'')))"
proof (intro conjI impI)
  show "svc_delete [] d = (Inl (BadRequest ''User ID is required''), d)"
    by (simp add: svc_delete_eq)
next
  assume "i \<noteq> [] \<and> \<not> user_exists i (rows d)"
  then have "svc_delete i d
      = (Inl (NotFound (''User with ID '' @ i @ '' not found'')), logq QCount d)"
    by (simp add: svc_delete_eq)
  then show "fst (svc_delete i d) = Inl (NotFound (''User with ID '' @ i @ '' not found''))"
    and "rows (snd (svc_delete i d)) = rows d"
    by (simp_all add: rows_logq)
next
  assume "i \<noteq> [] \<and> user_exists i (rows d)"
  then have ne: "i \<noteq> []"
    and run: "svc_delete i d
      = (Inr (), logq QDelete ((logq QCount d)\<lparr>rows := filter (\<lambda>u. uid u \<noteq> i) (rows d)\<rparr>))"
    by (simp_all add: svc_delete_eq)
  show "fst (svc_delete i d) = Inr ()"
    by (simp add: run)
  show removed: "rows (snd (svc_delete i d)) = filter (\<lambda>u. uid u \<noteq> i) (rows d)"
    by (simp add: run rows_logq)
  then show gone: "\<not> user_exists i (rows (snd (svc_delete i d)))"
    by (simp add: not_exists_after_filter)
  from ne gone show "fst (svc_delete i (snd (svc_delete i d)))
            = Inl (NotFound (''User with ID '' @ i @ '' not found''))"
    by (simp add: svc_delete_eq [of i "snd (svc_delete i d)"])
qed

text \<open>A concrete run of the theorem above on the small store.\<close>

theorem delete_outcomes_witness:
  "''zz'' \<noteq> [] \<and> \<not> user_exists ''zz'' (rows two_users)
   \<and> fst (svc_delete ''zz'' two_users) = Inl (NotFound ''User with ID zz not found'')
   \<and> user_exists ''a'' (rows two_users)
   \<and> fst (svc_delete ''a'' two_users) = Inr ()
   \<and> rows (snd (svc_delete ''a'' two_users)) = [bob]
   \<and> fst (svc_delete ''a'' (snd (svc_delete ''a'' two_users)))
       = Inl (NotFound ''User with ID a not found'')"
  using delete_outcomes [of two_users "''zz''"] delete_outcomes [of two_users "''a''"]
  by (simp add: store_defs probe_defs)

end
